theory Spec2Isabelle
  imports Complex_Main
begin

section \<open>Orbital Escape: the gravitational flight simulator of \<open>src/App.tsx\<close>\<close>

text \<open>
  The game keeps its numbers in JavaScript doubles. This development reads every number
  as a \<^typ>\<open>real\<close>: the formulas, the comparisons and the control flow are those of the
  source, the rounding of IEEE arithmetic is not modelled. All vectors of the game are
  \<open>THREE.Vector3\<close> values whose \<open>z\<close> component is set to \<open>0\<close> everywhere
  (\<open>position.set(x, y, 0)\<close>, \<open>spacecraftVelocity.set(.., .., 0)\<close>), so a vector is
  modelled by its \<open>x\<close> and \<open>y\<close> components.
\<close>

subsection \<open>Constants (lines 6--10)\<close>

definition G :: real where
  "G = 8"

definition LAUNCH_POWER_MULTIPLIER :: real where
  "LAUNCH_POWER_MULTIPLIER = 0.5"

definition GRAVITY_SOFTENING :: real where
  "GRAVITY_SOFTENING = 10"

definition MAX_TRAIL_LENGTH :: nat where
  "MAX_TRAIL_LENGTH = 100"

definition GOAL_RADIUS :: real where
  "GOAL_RADIUS = 2.5"

subsection \<open>Vectors: the operations of \<open>THREE.Vector3\<close> the game calls\<close>

datatype vec = Vec (vx: real) (vy: real)

definition vzero :: vec where
  "vzero = Vec 0 0"

definition vsub :: "vec \<Rightarrow> vec \<Rightarrow> vec" where
  "vsub a b = Vec (vx a - vx b) (vy a - vy b)"

definition vadd :: "vec \<Rightarrow> vec \<Rightarrow> vec" where
  "vadd a b = Vec (vx a + vx b) (vy a + vy b)"

definition multiplyScalar :: "vec \<Rightarrow> real \<Rightarrow> vec" where
  "multiplyScalar a s = Vec (vx a * s) (vy a * s)"

definition vlength :: "vec \<Rightarrow> real" where
  "vlength a = sqrt (vx a * vx a + vy a * vy a)"

text \<open>
  \<open>divideScalar(s)\<close> is \<open>multiplyScalar(1 / s)\<close>, and \<open>normalize()\<close> (here \<open>normalizeV\<close>) is
  \<open>divideScalar(length() || 1)\<close>: a vector of length \<open>0\<close> is divided by \<open>1\<close>.
\<close>

definition divideScalar :: "vec \<Rightarrow> real \<Rightarrow> vec" where
  "divideScalar a s = multiplyScalar a (1 / s)"

definition normalizeV :: "vec \<Rightarrow> vec" where
  "normalizeV a = divideScalar a (if vlength a = 0 then 1 else vlength a)"

definition distanceTo :: "vec \<Rightarrow> vec \<Rightarrow> real" where
  "distanceTo a b = sqrt ((vx a - vx b) * (vx a - vx b) + (vy a - vy b) * (vy a - vy b))"

subsection \<open>Planets and the gravity loop\<close>

text \<open>
  Of the \<open>Planet\<close> interface (lines 12--19) the simulation reads \<open>position\<close>, \<open>mass\<close>
  and \<open>radius\<close>; \<open>mesh\<close>, \<open>color\<close> and \<open>glow\<close> are display only.
\<close>

record Planet =
  position :: vec
  mass :: real
  radius :: real

text \<open>
  \<open>acceleration.add(direction)\<close> adds component by component with the \<open>+\<close> of
  JavaScript numbers. That addition of doubles is rounded and therefore not associative,
  so the order in which the loop adds matters to the code. The loop is written over an
  arbitrary addition \<open>addn\<close> of numbers; \<open>vaddWith addn\<close> is \<open>Vector3.add\<close> over it.
\<close>

definition vaddWith :: "(real \<Rightarrow> real \<Rightarrow> real) \<Rightarrow> vec \<Rightarrow> vec \<Rightarrow> vec" where
  "vaddWith addn a b = Vec (addn (vx a) (vx b)) (addn (vy a) (vy b))"

text \<open>
  The loop \<open>for (const planet of planets)\<close> occurs twice, in \<open>predictTrajectory\<close>
  (lines 374--388) and in \<open>animate\<close> (lines 612--627). The two copies differ in the
  collision test only: \<open>distance < planet.radius\<close> in the predictor,
  \<open>distance < planet.radius + 0.5\<close> in the integrator. \<open>threshold\<close> is that right-hand
  side. The result is \<open>None\<close> when the loop leaves through \<open>break\<close> with the collision
  flag set, and the accumulated acceleration otherwise.
\<close>

fun gravityLoopWith ::
  "(real \<Rightarrow> real \<Rightarrow> real) \<Rightarrow> (Planet \<Rightarrow> real) \<Rightarrow> vec \<Rightarrow> vec \<Rightarrow> Planet list \<Rightarrow> vec option" where
  "gravityLoopWith addn threshold pos acceleration [] = Some acceleration"
| "gravityLoopWith addn threshold pos acceleration (planet # rest) =
     (let direction = vsub (position planet) pos;
          distance = vlength direction
      in if distance < threshold planet then None
         else
           (let softDistance = distance + GRAVITY_SOFTENING;
                force = G * mass planet / (softDistance * softDistance)
            in gravityLoopWith addn threshold pos
                 (vaddWith addn acceleration (multiplyScalar (normalizeV direction) force)) rest))"

text \<open>The loop with the numbers read as reals: the addition is that of the reals.\<close>

definition gravityLoop :: "(Planet \<Rightarrow> real) \<Rightarrow> vec \<Rightarrow> vec \<Rightarrow> Planet list \<Rightarrow> vec option" where
  "gravityLoop threshold pos acceleration ps = gravityLoopWith (+) threshold pos acceleration ps"

definition predictorThreshold :: "Planet \<Rightarrow> real" where
  "predictorThreshold planet = radius planet"

definition integratorThreshold :: "Planet \<Rightarrow> real" where
  "integratorThreshold planet = radius planet + 0.5"

subsection \<open>The gravity field as the specification words it\<close>

text \<open>
  The contribution of one body at a point: \<open>G * mass / (r + SOFTENING)\<^sup>2\<close> along the unit
  vector from the point toward the body, \<open>r\<close> the Euclidean distance between them,
  with \<open>G = 8\<close> and \<open>SOFTENING = 10\<close>. At \<open>r = 0\<close> there is no unit vector; the
  quotient below is then the zero vector, which is also what \<open>normalize()\<close> leaves of a
  vector of length \<open>0\<close>.
\<close>

definition spec_distance :: "vec \<Rightarrow> Planet \<Rightarrow> real" where
  "spec_distance point body =
     sqrt ((vx (position body) - vx point)\<^sup>2 + (vy (position body) - vy point)\<^sup>2)"

definition spec_contribution :: "vec \<Rightarrow> Planet \<Rightarrow> vec" where
  "spec_contribution point body =
     (let r = spec_distance point body;
          k = 8 * mass body / (r + 10)\<^sup>2
      in Vec (k * ((vx (position body) - vx point) / r))
             (k * ((vy (position body) - vy point) / r)))"

text \<open>
  The sum of the contributions taken in list order, over an addition \<open>addn\<close> of numbers
  that need not be associative: \<open>((acc addn c\<^sub>1) addn c\<^sub>2) addn \<dots>\<close>, component by
  component.
\<close>

fun spec_sum :: "(real \<Rightarrow> real \<Rightarrow> real) \<Rightarrow> vec \<Rightarrow> vec list \<Rightarrow> vec" where
  "spec_sum addn acc [] = acc"
| "spec_sum addn acc (c # cs) =
     spec_sum addn (Vec (addn (vx acc) (vx c)) (addn (vy acc) (vy c))) cs"

text \<open>Over the reals the net acceleration is the sum of the contributions.\<close>

definition spec_acceleration :: "vec \<Rightarrow> Planet list \<Rightarrow> vec" where
  "spec_acceleration point bodies =
     Vec (sum_list (map (\<lambda>body. vx (spec_contribution point body)) bodies))
         (sum_list (map (\<lambda>body. vy (spec_contribution point body)) bodies))"

text \<open>
  An addition that is commutative but not associative, as the rounded addition of doubles
  is: the sum of the reals cut to the range from \<open>-10\<close> to \<open>10\<close>.
\<close>

definition saturatingAdd :: "real \<Rightarrow> real \<Rightarrow> real" where
  "saturatingAdd a b = max (- 10) (min 10 (a + b))"

text \<open>The variant the specification rules out: softening added to the squared distance.\<close>

definition wrong_contribution :: "vec \<Rightarrow> Planet \<Rightarrow> vec" where
  "wrong_contribution point body =
     (let r = spec_distance point body;
          k = 8 * mass body / (r\<^sup>2 + 10)
      in Vec (k * ((vx (position body) - vx point) / r))
             (k * ((vy (position body) - vy point) / r)))"

subsection \<open>The level catalogue (lines 21--106)\<close>

text \<open>
  A \<open>Level\<close> keeps the start of the craft, the goal and the planets; \<open>name\<close>,
  \<open>description\<close>, \<open>hint\<close> and the planets' \<open>color\<close> are display only.
  \<open>createPlanet\<close> (lines 235--268) copies \<open>x\<close>, \<open>y\<close>, \<open>mass\<close> and \<open>radius\<close> of a
  catalogue entry into a \<open>Planet\<close>; the catalogue below holds the planets in that form.
\<close>

record Level =
  level_spacecraft :: vec
  level_goal :: vec
  level_planets :: "Planet list"

definition createPlanet :: "real \<Rightarrow> real \<Rightarrow> real \<Rightarrow> real \<Rightarrow> Planet" where
  "createPlanet x y m r = \<lparr>position = Vec x y, mass = m, radius = r\<rparr>"

definition LEVELS :: "Level list" where
  "LEVELS =
    [\<lparr>level_spacecraft = Vec (-20) 0, level_goal = Vec 20 0, level_planets = []\<rparr>,
     \<lparr>level_spacecraft = Vec (-25) 0, level_goal = Vec 25 0,
      level_planets = [createPlanet 0 (-12) 400 2.5]\<rparr>,
     \<lparr>level_spacecraft = Vec (-25) (-10), level_goal = Vec 25 10,
      level_planets = [createPlanet 0 (-5) 600 3]\<rparr>,
     \<lparr>level_spacecraft = Vec (-30) 0, level_goal = Vec 30 0,
      level_planets = [createPlanet 0 15 400 2, createPlanet 0 (-15) 400 2]\<rparr>,
     \<lparr>level_spacecraft = Vec (-30) (-15), level_goal = Vec 30 15,
      level_planets = [createPlanet (-10) 10 350 2, createPlanet 10 (-5) 400 2]\<rparr>,
     \<lparr>level_spacecraft = Vec (-35) 0, level_goal = Vec 35 0,
      level_planets =
        [createPlanet (-15) 8 300 1.5, createPlanet (-15) (-8) 300 1.5,
         createPlanet 0 12 350 1.8, createPlanet 0 (-12) 350 1.8,
         createPlanet 15 6 300 1.5, createPlanet 15 (-6) 300 1.5]\<rparr>,
     \<lparr>level_spacecraft = Vec (-30) 20, level_goal = Vec 30 20,
      level_planets = [createPlanet 0 0 1500 4]\<rparr>]"

subsection \<open>The state of the application\<close>

text \<open>
  The signals of \<open>App\<close> (lines 111--121) and the game objects of \<open>onMount\<close>
  (lines 182--189). \<open>spacecraft\<close> and \<open>goal\<close> are \<open>undefined\<close> until the first
  \<open>initLevel\<close>; each is kept as the position of its \<open>THREE.Group\<close>. The lines
  \<open>aimLine\<close>, \<open>trajectoryLine\<close> and \<open>trail\<close> are created in the same \<open>initLevel\<close>
  call as \<open>spacecraft\<close>, so they are defined exactly when \<open>spacecraft\<close> is; what they
  draw is not part of the state. \<open>showHint\<close> and the rotation of the craft are display
  only.
\<close>

datatype phase = Aiming | Flying | Success | Failed

record state =
  currentLevel :: nat
  gameState :: phase
  attempts :: nat
  showMenu :: bool
  showLevelSelect :: bool
  isDragging :: bool
  launchPower :: real
  launchAngle :: real
  completedLevels :: "nat set"
  retryCounter :: nat
  spacecraft :: "vec option"
  spacecraftVelocity :: vec
  planets :: "Planet list"
  goal :: "vec option"
  trailPositions :: "vec list"

definition initialState :: state where
  "initialState =
     \<lparr>currentLevel = 0, gameState = Aiming, attempts = 0, showMenu = True,
      showLevelSelect = False, isDragging = False, launchPower = 0, launchAngle = 0,
      completedLevels = {}, retryCounter = 0, spacecraft = None, spacecraftVelocity = vzero,
      planets = [], goal = None, trailPositions = []\<rparr>"

subsection \<open>The trajectory predictor (lines 363--404)\<close>

text \<open>\<open>goal && pos.distanceTo(goal.position) < limit\<close>: no goal, no test.\<close>

definition goalWithin :: "vec option \<Rightarrow> vec \<Rightarrow> real \<Rightarrow> bool" where
  "goalWithin g pos limit = (case g of None \<Rightarrow> False | Some gp \<Rightarrow> distanceTo pos gp < limit)"

text \<open>
  The \<open>for\<close> loop over \<open>i < steps\<close>, as a recursion on the steps that are left; the
  positions pushed from this step on are the result. \<open>predictTrajectory\<close> reads the
  variables \<open>planets\<close> and \<open>goal\<close> of the enclosing scope; they are parameters here.
\<close>

fun predictLoop :: "Planet list \<Rightarrow> vec option \<Rightarrow> real \<Rightarrow> nat \<Rightarrow> vec \<Rightarrow> vec \<Rightarrow> vec list" where
  "predictLoop ps g dt 0 pos vel = []"
| "predictLoop ps g dt (Suc n) pos vel =
     (case gravityLoop predictorThreshold pos vzero ps of
        None \<Rightarrow> []
      | Some acceleration \<Rightarrow>
          if goalWithin g pos (GOAL_RADIUS * 1.5) then []
          else
            (let vel' = vadd vel (multiplyScalar acceleration dt);
                 pos' = vadd pos (multiplyScalar vel' dt)
             in pos' # (if \<bar>vx pos'\<bar> > 60 \<or> \<bar>vy pos'\<bar> > 50 then []
                        else predictLoop ps g dt n pos' vel')))"

definition predictTrajectory :: "Planet list \<Rightarrow> vec option \<Rightarrow> vec \<Rightarrow> vec \<Rightarrow> nat \<Rightarrow> vec list" where
  "predictTrajectory ps g startPos velocity steps =
     predictLoop ps g (0.016 * 3) steps startPos velocity"

text \<open>\<open>updateTrajectoryLine\<close> (lines 407--426) asks for \<open>100\<close> steps.\<close>

definition updateTrajectoryLine :: "Planet list \<Rightarrow> vec option \<Rightarrow> vec \<Rightarrow> vec \<Rightarrow> vec list" where
  "updateTrajectoryLine ps g startPos velocity = predictTrajectory ps g startPos velocity 100"

subsection \<open>The predictor as the specification words it\<close>

definition spec_collides :: "vec \<Rightarrow> Planet list \<Rightarrow> bool" where
  "spec_collides point bodies = (\<exists>body \<in> set bodies. spec_distance point body < radius body)"

definition spec_goal_distance :: "vec \<Rightarrow> vec \<Rightarrow> real" where
  "spec_goal_distance point g = sqrt ((vx point - vx g)\<^sup>2 + (vy point - vy g)\<^sup>2)"

fun spec_predict :: "Planet list \<Rightarrow> vec \<Rightarrow> nat \<Rightarrow> vec \<Rightarrow> vec \<Rightarrow> vec list" where
  "spec_predict bodies g 0 pos vel = []"
| "spec_predict bodies g (Suc n) pos vel =
     (if spec_collides pos bodies then []
      else if spec_goal_distance pos g < 3.75 then []
      else
        (let a = spec_acceleration pos bodies;
             vel' = Vec (vx vel + vx a * 0.048) (vy vel + vy a * 0.048);
             pos' = Vec (vx pos + vx vel' * 0.048) (vy pos + vy vel' * 0.048)
         in if \<bar>vx pos'\<bar> > 60 \<or> \<bar>vy pos'\<bar> > 50 then [pos']
            else pos' # spec_predict bodies g n pos' vel'))"

subsection \<open>Level initialisation and the reactive effect\<close>

text \<open>
  \<open>initLevel\<close> (lines 429--474). \<open>LEVELS[levelIndex]\<close> is \<open>undefined\<close> for an index out
  of range and \<open>level.spacecraft\<close> then throws a \<open>TypeError\<close>: the result is \<open>None\<close>.
  A handler that ends in an uncaught exception has no result state here.
\<close>

definition initLevel :: "nat \<Rightarrow> state \<Rightarrow> state option" where
  "initLevel levelIndex s =
     (if levelIndex < length LEVELS then
        (let level = LEVELS ! levelIndex
         in Some (s\<lparr>planets := level_planets level,
                    spacecraft := Some (level_spacecraft level),
                    goal := Some (level_goal level),
                    trailPositions := [],
                    spacecraftVelocity := vzero,
                    gameState := Aiming,
                    attempts := attempts s + 1\<rparr>))
      else None)"

text \<open>
  The effect of lines 689--695 reads \<open>currentLevel\<close>, \<open>retryCounter\<close>, \<open>showMenu\<close> and,
  when the menu is closed, \<open>showLevelSelect\<close>. A Solid effect runs again as soon as a
  signal it has read is set to a different value (signals compare with \<open>===\<close>), before
  the setter returns; click handlers are not batched. A setter of one of these four
  signals is therefore followed by \<open>levelEffect\<close> when the value has changed. While the
  menu is open \<open>showLevelSelect\<close> is not tracked, and running the effect then does
  nothing, so the model may run it.
\<close>

definition levelEffect :: "state \<Rightarrow> state option" where
  "levelEffect s =
     (if \<not> showMenu s \<and> \<not> showLevelSelect s then initLevel (currentLevel s) s else Some s)"

definition setCurrentLevel :: "nat \<Rightarrow> state \<Rightarrow> state option" where
  "setCurrentLevel v s =
     (if currentLevel s = v then Some s else levelEffect (s\<lparr>currentLevel := v\<rparr>))"

definition setRetryCounter :: "nat \<Rightarrow> state \<Rightarrow> state option" where
  "setRetryCounter v s =
     (if retryCounter s = v then Some s else levelEffect (s\<lparr>retryCounter := v\<rparr>))"

definition setShowMenu :: "bool \<Rightarrow> state \<Rightarrow> state option" where
  "setShowMenu v s =
     (if showMenu s = v then Some s else levelEffect (s\<lparr>showMenu := v\<rparr>))"

definition setShowLevelSelect :: "bool \<Rightarrow> state \<Rightarrow> state option" where
  "setShowLevelSelect v s =
     (if showLevelSelect s = v then Some s else levelEffect (s\<lparr>showLevelSelect := v\<rparr>))"

subsection \<open>The buttons (lines 707--736 and the \<open>onClick\<close> handlers of the view)\<close>

definition startGame :: "state \<Rightarrow> state option" where
  "startGame s =
     (case setShowMenu False s of None \<Rightarrow> None
      | Some s1 \<Rightarrow>
          (case setCurrentLevel 0 s1 of None \<Rightarrow> None
           | Some s2 \<Rightarrow> Some (s2\<lparr>attempts := 0\<rparr>)))"

definition nextLevel :: "state \<Rightarrow> state option" where
  "nextLevel s =
     (if currentLevel s < length LEVELS - 1 then setCurrentLevel (currentLevel s + 1) s
      else setShowMenu True (s\<lparr>gameState := Aiming\<rparr>))"

definition retryLevel :: "state \<Rightarrow> state option" where
  "retryLevel s = setRetryCounter (retryCounter s + 1) s"

definition openLevelSelect :: "state \<Rightarrow> state option" where
  "openLevelSelect s =
     (case setShowLevelSelect True s of None \<Rightarrow> None
      | Some s1 \<Rightarrow> setShowMenu False s1)"

definition selectLevel :: "nat \<Rightarrow> state \<Rightarrow> state option" where
  "selectLevel index s =
     (case setShowLevelSelect False s of None \<Rightarrow> None
      | Some s1 \<Rightarrow>
          (case setCurrentLevel index s1 of None \<Rightarrow> None
           | Some s2 \<Rightarrow> Some (s2\<lparr>attempts := 0\<rparr>)))"

text \<open>\<open>Back to Menu\<close> of the level grid, and \<open>Menu\<close> of the game view.\<close>

definition backToMenu :: "state \<Rightarrow> state option" where
  "backToMenu s =
     (case setShowLevelSelect False s of None \<Rightarrow> None
      | Some s1 \<Rightarrow> setShowMenu True s1)"

definition menuButton :: "state \<Rightarrow> state option" where
  "menuButton s = setShowMenu True s"

subsection \<open>The mouse (lines 489--560)\<close>

text \<open>
  \<open>Math.atan2\<close> on numbers that are not signed zeros or infinities.
\<close>

definition atan2 :: "real \<Rightarrow> real \<Rightarrow> real" where
  "atan2 dy dx =
     (if dx > 0 then arctan (dy / dx)
      else if dx < 0 then (if dy \<ge> 0 then arctan (dy / dx) + pi else arctan (dy / dx) - pi)
      else if dy > 0 then pi / 2
      else if dy < 0 then - (pi / 2)
      else 0)"

text \<open>
  Past its guard each handler touches \<open>aimLine\<close> or \<open>spacecraft\<close>, which throws while
  they are \<open>undefined\<close>.
\<close>

definition onMouseDown :: "state \<Rightarrow> state option" where
  "onMouseDown s =
     (if showMenu s \<or> showLevelSelect s \<or> gameState s \<noteq> Aiming then Some s
      else (case spacecraft s of None \<Rightarrow> None
            | Some _ \<Rightarrow> Some (s\<lparr>isDragging := True\<rparr>)))"

text \<open>
  \<open>worldPos\<close> is what \<open>getMouseWorldPos\<close> returns for the event. The handler also
  redraws the aim line and the predicted trajectory
  (\<open>updateTrajectoryLine\<close> at the launch velocity of the current aim).
\<close>

definition launchVelocity :: "real \<Rightarrow> real \<Rightarrow> vec" where
  "launchVelocity angle pwr =
     Vec (cos angle * pwr * LAUNCH_POWER_MULTIPLIER) (sin angle * pwr * LAUNCH_POWER_MULTIPLIER)"

definition onMouseMove :: "vec \<Rightarrow> state \<Rightarrow> state option" where
  "onMouseMove worldPos s =
     (if \<not> isDragging s \<or> gameState s \<noteq> Aiming then Some s
      else (case spacecraft s of None \<Rightarrow> None
            | Some p \<Rightarrow>
                (let dx = vx p - vx worldPos;
                     dy = vy p - vy worldPos;
                     pwr = min (sqrt (dx * dx + dy * dy)) 30;
                     angle = atan2 dy dx
                 in Some (s\<lparr>launchPower := pwr, launchAngle := angle\<rparr>))))"

definition onMouseUp :: "state \<Rightarrow> state option" where
  "onMouseUp s =
     (if \<not> isDragging s \<or> gameState s \<noteq> Aiming then Some s
      else (case spacecraft s of None \<Rightarrow> None
            | Some _ \<Rightarrow>
                (let s1 = s\<lparr>isDragging := False\<rparr>;
                     s2 = (if launchPower s1 > 2
                           then s1\<lparr>spacecraftVelocity :=
                                     launchVelocity (launchAngle s1) (launchPower s1),
                                   gameState := Flying\<rparr>
                           else s1)
                 in Some (s2\<lparr>launchPower := 0\<rparr>))))"

subsection \<open>The physics of a frame (lines 604--673)\<close>

text \<open>
  \<open>animate\<close> returns the state after the frame together with the calls of
  \<open>setGameState\<close> the frame has made, in order.
\<close>

definition setGameState :: "phase \<Rightarrow> state \<times> phase list \<Rightarrow> state \<times> phase list" where
  "setGameState ph sl = ((fst sl)\<lparr>gameState := ph\<rparr>, snd sl @ [ph])"

definition updateTrail :: "vec \<Rightarrow> vec list \<Rightarrow> vec list" where
  "updateTrail p t =
     (let t1 = t @ [p]
      in if length t1 > MAX_TRAIL_LENGTH then tl t1 else t1)"

definition goalCheck :: "vec \<Rightarrow> state \<times> phase list \<Rightarrow> state \<times> phase list" where
  "goalCheck p sl =
     (if goalWithin (goal (fst sl)) p (GOAL_RADIUS * 1.2)
      then (let sl1 = setGameState Success sl
            in ((fst sl1)\<lparr>completedLevels :=
                   insert (currentLevel (fst sl1)) (completedLevels (fst sl1))\<rparr>, snd sl1))
      else sl)"

definition boundsCheck :: "vec \<Rightarrow> state \<times> phase list \<Rightarrow> state \<times> phase list" where
  "boundsCheck p sl =
     (if \<bar>vx p\<bar> > 55 \<or> \<bar>vy p\<bar> > 45 then setGameState Failed sl else sl)"

definition animate :: "state \<Rightarrow> state \<times> phase list" where
  "animate s =
     (if gameState s = Flying then
        (case spacecraft s of
           None \<Rightarrow> (s, [])
         | Some p \<Rightarrow>
             (case gravityLoop integratorThreshold p vzero (planets s) of
                None \<Rightarrow> setGameState Failed (s, [])
              | Some acceleration \<Rightarrow>
                  (let dt = 0.016;
                       v' = vadd (spacecraftVelocity s) (multiplyScalar acceleration dt);
                       p' = vadd p (multiplyScalar v' dt);
                       s1 = s\<lparr>spacecraftVelocity := v', spacecraft := Some p',
                               trailPositions := updateTrail p' (trailPositions s)\<rparr>
                   in boundsCheck p' (goalCheck p' (s1, [])))))
      else (s, []))"

definition tick :: "state \<Rightarrow> state" where
  "tick s = fst (animate s)"

subsection \<open>Events and reachable states\<close>

datatype event =
    MouseDown | MouseMove vec | MouseUp | Frame
  | StartGame | NextLevel | RetryLevel | OpenLevelSelect | SelectLevel nat
  | BackToMenu | MenuButton

fun handle :: "event \<Rightarrow> state \<Rightarrow> state option" where
  "handle MouseDown s = onMouseDown s"
| "handle (MouseMove w) s = onMouseMove w s"
| "handle MouseUp s = onMouseUp s"
| "handle Frame s = Some (tick s)"
| "handle StartGame s = startGame s"
| "handle NextLevel s = nextLevel s"
| "handle RetryLevel s = retryLevel s"
| "handle OpenLevelSelect s = openLevelSelect s"
| "handle (SelectLevel i) s = selectLevel i s"
| "handle BackToMenu s = backToMenu s"
| "handle MenuButton s = menuButton s"

fun run :: "event list \<Rightarrow> state \<Rightarrow> state option" where
  "run [] s = Some s"
| "run (e # es) s = (case handle e s of None \<Rightarrow> None | Some s' \<Rightarrow> run es s')"

text \<open>
  The level grid is built by \<open>For each={LEVELS}\<close>: it offers \<open>selectLevel\<close> for the
  indices of the catalogue only. Every other event is taken at any moment, whatever
  the view shows.
\<close>

fun viewOffers :: "event \<Rightarrow> bool" where
  "viewOffers (SelectLevel i) = (i < length LEVELS)"
| "viewOffers _ = True"

inductive reachable :: "state \<Rightarrow> bool" where
  reachable_initial: "reachable initialState"
| reachable_handle:
    "reachable s \<Longrightarrow> viewOffers e \<Longrightarrow> handle e s = Some s' \<Longrightarrow> reachable s'"

text \<open>
  A property of states is stable under the signals when \<open>initLevel\<close> and the plain
  writes of the button handlers keep it.
\<close>

definition signalStable :: "(state \<Rightarrow> bool) \<Rightarrow> bool" where
  "signalStable P \<longleftrightarrow>
     (\<forall>s. P s \<longrightarrow>
        (\<forall>i s'. initLevel i s = Some s' \<longrightarrow> P s')
      \<and> (\<forall>v. P (s\<lparr>currentLevel := v\<rparr>))
      \<and> (\<forall>v. P (s\<lparr>retryCounter := v\<rparr>))
      \<and> (\<forall>v. P (s\<lparr>showMenu := v\<rparr>))
      \<and> (\<forall>v. P (s\<lparr>showLevelSelect := v\<rparr>))
      \<and> (\<forall>v. P (s\<lparr>attempts := v\<rparr>))
      \<and> P (s\<lparr>gameState := Aiming\<rparr>))"

text \<open>The goal of a state is undefined or the goal of a level of the catalogue.\<close>

definition goalOfCatalogue :: "state \<Rightarrow> bool" where
  "goalOfCatalogue s =
     (case goal s of None \<Rightarrow> True | Some g \<Rightarrow> g \<in> set (map level_goal LEVELS))"

text \<open>
  The Run of a state: the craft, its velocity, the trail, the planets and the goal.
  \<open>sameRun\<close> says that two states hold the same Run, \<open>freshRun\<close> that the Run is one
  that \<open>initLevel\<close> builds (a level of the catalogue at its start, at rest, with an
  empty trail, in phase \<open>Aiming\<close>).
\<close>

definition sameRun :: "state \<Rightarrow> state \<Rightarrow> bool" where
  "sameRun s t \<longleftrightarrow>
     spacecraft t = spacecraft s \<and> spacecraftVelocity t = spacecraftVelocity s
     \<and> trailPositions t = trailPositions s \<and> planets t = planets s \<and> goal t = goal s"

definition freshRun :: "state \<Rightarrow> bool" where
  "freshRun s \<longleftrightarrow>
     gameState s = Aiming \<and> spacecraftVelocity s = vzero \<and> trailPositions s = []
     \<and> (\<exists>level \<in> set LEVELS.
           spacecraft s = Some (level_spacecraft level) \<and> goal s = Some (level_goal level)
           \<and> planets s = level_planets level)"

text \<open>
  A run is over when no flight is going on and none can be launched: the phase is not
  \<open>Flying\<close>, no drag is active, and the phase \<open>Aiming\<close> occurs only behind the menu or
  the level grid, where \<open>onMouseDown\<close> starts no drag.
\<close>

definition runOver :: "state \<Rightarrow> bool" where
  "runOver s \<longleftrightarrow>
     gameState s \<noteq> Flying \<and> \<not> isDragging s
     \<and> (gameState s = Aiming \<longrightarrow> showMenu s \<or> showLevelSelect s)"

text \<open>After some events from \<open>s\<close>: the run is still over and untouched, or a fresh one.\<close>

definition overOrFresh :: "state \<Rightarrow> state \<Rightarrow> bool" where
  "overOrFresh s t \<longleftrightarrow> (runOver t \<and> sameRun s t) \<or> freshRun t"

text \<open>The buttons whose handlers can run \<open>initLevel\<close> through the level effect.\<close>

fun entersLevel :: "event \<Rightarrow> bool" where
  "entersLevel StartGame = True"
| "entersLevel NextLevel = True"
| "entersLevel RetryLevel = True"
| "entersLevel (SelectLevel i) = True"
| "entersLevel BackToMenu = True"
| "entersLevel _ = False"

text \<open>The frames of a flight: \<open>flight n s\<close> is the state after \<open>n\<close> frames from \<open>s\<close>.\<close>

fun flight :: "nat \<Rightarrow> state \<Rightarrow> state" where
  "flight 0 s = s"
| "flight (Suc n) s = tick (flight n s)"

text \<open>The positions of the craft after the frames \<open>1, \<dots>, n\<close>, oldest first.\<close>

definition visited :: "nat \<Rightarrow> state \<Rightarrow> vec list" where
  "visited n s = map (\<lambda>k. the (spacecraft (flight k s))) [1..<Suc n]"

text \<open>
  The straight shot: level \<open>0\<close> (no planets, start \<open>(-20, 0)\<close>, goal \<open>(20, 0)\<close>),
  the mouse dragged to \<open>(-50, 0)\<close> and released: power \<open>30\<close>, angle \<open>0\<close>, launch
  velocity \<open>(15, 0)\<close>.
\<close>

definition straightShot :: state where
  "straightShot = the (run [StartGame, MouseDown, MouseMove (Vec (-50) 0), MouseUp] initialState)"


subsection \<open>Facts about the gravity loop\<close>

lemma vlength_vsub: "vlength (vsub (position body) point) = spec_distance point body"
  by (simp add: vlength_def vsub_def spec_distance_def power2_eq_square)

lemma contribution_eq:
  "multiplyScalar (normalizeV (vsub (position body) point))
     (G * mass body / ((spec_distance point body + GRAVITY_SOFTENING)
        * (spec_distance point body + GRAVITY_SOFTENING)))
   = spec_contribution point body"
proof -
  define d where "d = vsub (position body) point"
  define r where "r = spec_distance point body"
  have len: "vlength d = r"
    unfolding d_def r_def by (rule vlength_vsub)
  have comps: "vx d = vx (position body) - vx point" "vy d = vy (position body) - vy point"
    by (simp_all add: d_def vsub_def)
  have "multiplyScalar (normalizeV d) (G * mass body / ((r + GRAVITY_SOFTENING) * (r + GRAVITY_SOFTENING)))
        = Vec (8 * mass body / (r + 10)\<^sup>2 * (vx d / r)) (8 * mass body / (r + 10)\<^sup>2 * (vy d / r))"
  proof (cases "r = 0")
    case True
    with len have "vx d * vx d + vy d * vy d = 0"
      by (simp add: vlength_def)
    then have "vx d = 0 \<and> vy d = 0"
      by simp
    with True show ?thesis
      by (simp add: normalizeV_def divideScalar_def multiplyScalar_def len)
  next
    case False
    then show ?thesis
      by (simp add: normalizeV_def divideScalar_def multiplyScalar_def len G_def
          GRAVITY_SOFTENING_def power2_eq_square mult_ac)
  qed
  then show ?thesis
    by (simp add: spec_contribution_def Let_def comps flip: d_def r_def)
qed

lemma gravityLoop_simps [simp]:
  "gravityLoop threshold pos acceleration [] = Some acceleration"
  "gravityLoop threshold pos acceleration (planet # rest) =
     (let direction = vsub (position planet) pos;
          distance = vlength direction
      in if distance < threshold planet then None
         else
           (let softDistance = distance + GRAVITY_SOFTENING;
                force = G * mass planet / (softDistance * softDistance)
            in gravityLoop threshold pos
                 (vadd acceleration (multiplyScalar (normalizeV direction) force)) rest))"
  by (simp_all add: gravityLoop_def vaddWith_def vadd_def Let_def)

lemma gravityLoopWith_None:
  "(\<exists>body \<in> set bodies. spec_distance point body < threshold body)
     \<Longrightarrow> gravityLoopWith addn threshold point acc bodies = None"
  by (induction bodies arbitrary: acc) (auto simp: Let_def vlength_vsub)

lemma gravityLoopWith_Some:
  "\<not> (\<exists>body \<in> set bodies. spec_distance point body < threshold body)
     \<Longrightarrow> gravityLoopWith addn threshold point acc bodies
         = Some (spec_sum addn acc (map (spec_contribution point) bodies))"
  by (induction bodies arbitrary: acc)
     (auto simp: Let_def vlength_vsub contribution_eq vaddWith_def)

lemma spec_sum_real:
  "spec_sum (+) acc cs = Vec (vx acc + sum_list (map vx cs)) (vy acc + sum_list (map vy cs))"
  by (induction cs arbitrary: acc) (simp_all add: add.assoc)

lemma gravityLoop_None:
  "(\<exists>body \<in> set bodies. spec_distance point body < threshold body)
     \<Longrightarrow> gravityLoop threshold point acc bodies = None"
  unfolding gravityLoop_def by (rule gravityLoopWith_None)

lemma gravityLoop_Some:
  "\<not> (\<exists>body \<in> set bodies. spec_distance point body < threshold body)
     \<Longrightarrow> gravityLoop threshold point vzero bodies = Some (spec_acceleration point bodies)"
  unfolding gravityLoop_def
  by (simp add: gravityLoopWith_Some spec_sum_real spec_acceleration_def vzero_def comp_def)

lemma distanceTo_spec: "distanceTo p (position b) = spec_distance p b"
  by (simp add: distanceTo_def spec_distance_def power2_eq_square algebra_simps)

lemma sqrt_9: "sqrt 9 = 3"
  by (rule real_sqrt_unique) simp_all

lemma sqrt_25: "sqrt 25 = 5"
  by (rule real_sqrt_unique) simp_all

lemma sqrt_400: "sqrt 400 = 20"
  by (rule real_sqrt_unique) simp_all

lemma sqrt_900: "sqrt 900 = 30"
  by (rule real_sqrt_unique) simp_all

subsection \<open>Properties kept by the button handlers\<close>

lemma signalStable_initLevel:
  "signalStable P \<Longrightarrow> P s \<Longrightarrow> initLevel i s = Some s' \<Longrightarrow> P s'"
  unfolding signalStable_def by blast

lemma signalStable_fields:
  assumes "signalStable P" "P s"
  shows "P (s\<lparr>currentLevel := n\<rparr>)" "P (s\<lparr>retryCounter := n\<rparr>)" "P (s\<lparr>showMenu := b\<rparr>)"
    "P (s\<lparr>showLevelSelect := b\<rparr>)" "P (s\<lparr>attempts := n\<rparr>)" "P (s\<lparr>gameState := Aiming\<rparr>)"
  using assms unfolding signalStable_def by blast+

lemma levelEffect_stable:
  assumes "signalStable P" "P s" "levelEffect s = Some s'"
  shows "P s'"
proof (cases "\<not> showMenu s \<and> \<not> showLevelSelect s")
  case True
  with assms(3) have "initLevel (currentLevel s) s = Some s'"
    by (simp add: levelEffect_def)
  with assms(1,2) show ?thesis by (rule signalStable_initLevel)
next
  case False
  with assms(3) have "s' = s" by (auto simp add: levelEffect_def)
  with assms(2) show ?thesis by simp
qed

lemma setCurrentLevel_stable:
  assumes "signalStable P" "P s" "setCurrentLevel v s = Some s'"
  shows "P s'"
proof (cases "currentLevel s = v")
  case True
  with assms(3) have "s' = s" by (simp add: setCurrentLevel_def)
  with assms(2) show ?thesis by simp
next
  case False
  with assms(3) have "levelEffect (s\<lparr>currentLevel := v\<rparr>) = Some s'"
    by (simp add: setCurrentLevel_def)
  with assms(1) signalStable_fields(1) [OF assms(1,2)] show ?thesis
    by (rule levelEffect_stable)
qed

lemma setRetryCounter_stable:
  assumes "signalStable P" "P s" "setRetryCounter v s = Some s'"
  shows "P s'"
proof (cases "retryCounter s = v")
  case True
  with assms(3) have "s' = s" by (simp add: setRetryCounter_def)
  with assms(2) show ?thesis by simp
next
  case False
  with assms(3) have "levelEffect (s\<lparr>retryCounter := v\<rparr>) = Some s'"
    by (simp add: setRetryCounter_def)
  with assms(1) signalStable_fields(2) [OF assms(1,2)] show ?thesis
    by (rule levelEffect_stable)
qed

lemma setShowMenu_stable:
  assumes "signalStable P" "P s" "setShowMenu v s = Some s'"
  shows "P s'"
proof (cases "showMenu s = v")
  case True
  with assms(3) have "s' = s" by (simp add: setShowMenu_def)
  with assms(2) show ?thesis by simp
next
  case False
  with assms(3) have "levelEffect (s\<lparr>showMenu := v\<rparr>) = Some s'"
    by (simp add: setShowMenu_def)
  with assms(1) signalStable_fields(3) [OF assms(1,2)] show ?thesis
    by (rule levelEffect_stable)
qed

lemma setShowLevelSelect_stable:
  assumes "signalStable P" "P s" "setShowLevelSelect v s = Some s'"
  shows "P s'"
proof (cases "showLevelSelect s = v")
  case True
  with assms(3) have "s' = s" by (simp add: setShowLevelSelect_def)
  with assms(2) show ?thesis by simp
next
  case False
  with assms(3) have "levelEffect (s\<lparr>showLevelSelect := v\<rparr>) = Some s'"
    by (simp add: setShowLevelSelect_def)
  with assms(1) signalStable_fields(4) [OF assms(1,2)] show ?thesis
    by (rule levelEffect_stable)
qed

lemma startGame_stable:
  assumes "signalStable P" "P s" "startGame s = Some s'"
  shows "P s'"
proof (cases "setShowMenu False s")
  case None
  with assms(3) show ?thesis by (simp add: startGame_def)
next
  case (Some s1)
  have p1: "P s1" by (rule setShowMenu_stable [OF assms(1,2) Some])
  show ?thesis
  proof (cases "setCurrentLevel 0 s1")
    case None
    with Some assms(3) show ?thesis by (simp add: startGame_def)
  next
    case (Some s2)
    have "P s2" by (rule setCurrentLevel_stable [OF assms(1) p1 Some])
    then have "P (s2\<lparr>attempts := 0\<rparr>)" by (rule signalStable_fields(5) [OF assms(1)])
    moreover from \<open>setShowMenu False s = Some s1\<close> Some assms(3)
    have "s' = s2\<lparr>attempts := 0\<rparr>" by (simp add: startGame_def)
    ultimately show ?thesis by simp
  qed
qed

lemma selectLevel_stable:
  assumes "signalStable P" "P s" "selectLevel i s = Some s'"
  shows "P s'"
proof (cases "setShowLevelSelect False s")
  case None
  with assms(3) show ?thesis by (simp add: selectLevel_def)
next
  case (Some s1)
  have p1: "P s1" by (rule setShowLevelSelect_stable [OF assms(1,2) Some])
  show ?thesis
  proof (cases "setCurrentLevel i s1")
    case None
    with Some assms(3) show ?thesis by (simp add: selectLevel_def)
  next
    case (Some s2)
    have "P s2" by (rule setCurrentLevel_stable [OF assms(1) p1 Some])
    then have "P (s2\<lparr>attempts := 0\<rparr>)" by (rule signalStable_fields(5) [OF assms(1)])
    moreover from \<open>setShowLevelSelect False s = Some s1\<close> Some assms(3)
    have "s' = s2\<lparr>attempts := 0\<rparr>" by (simp add: selectLevel_def)
    ultimately show ?thesis by simp
  qed
qed

lemma openLevelSelect_stable:
  assumes "signalStable P" "P s" "openLevelSelect s = Some s'"
  shows "P s'"
proof (cases "setShowLevelSelect True s")
  case None
  with assms(3) show ?thesis by (simp add: openLevelSelect_def)
next
  case (Some s1)
  have p1: "P s1" by (rule setShowLevelSelect_stable [OF assms(1,2) Some])
  from Some assms(3) have "setShowMenu False s1 = Some s'" by (simp add: openLevelSelect_def)
  then show ?thesis by (rule setShowMenu_stable [OF assms(1) p1])
qed

lemma backToMenu_stable:
  assumes "signalStable P" "P s" "backToMenu s = Some s'"
  shows "P s'"
proof (cases "setShowLevelSelect False s")
  case None
  with assms(3) show ?thesis by (simp add: backToMenu_def)
next
  case (Some s1)
  have p1: "P s1" by (rule setShowLevelSelect_stable [OF assms(1,2) Some])
  from Some assms(3) have "setShowMenu True s1 = Some s'" by (simp add: backToMenu_def)
  then show ?thesis by (rule setShowMenu_stable [OF assms(1) p1])
qed

lemma nextLevel_stable:
  assumes "signalStable P" "P s" "nextLevel s = Some s'"
  shows "P s'"
proof (cases "currentLevel s < length LEVELS - 1")
  case True
  with assms(3) have "setCurrentLevel (currentLevel s + 1) s = Some s'"
    by (simp add: nextLevel_def)
  with assms(1,2) show ?thesis by (rule setCurrentLevel_stable)
next
  case False
  with assms(3) have "setShowMenu True (s\<lparr>gameState := Aiming\<rparr>) = Some s'"
    by (simp add: nextLevel_def)
  with assms(1) signalStable_fields(6) [OF assms(1,2)] show ?thesis
    by (rule setShowMenu_stable)
qed

lemma retryLevel_stable:
  "signalStable P \<Longrightarrow> P s \<Longrightarrow> retryLevel s = Some s' \<Longrightarrow> P s'"
  unfolding retryLevel_def by (rule setRetryCounter_stable)

lemma menuButton_stable:
  "signalStable P \<Longrightarrow> P s \<Longrightarrow> menuButton s = Some s' \<Longrightarrow> P s'"
  unfolding menuButton_def by (rule setShowMenu_stable)

lemma handle_stable:
  assumes sig: "signalStable P"
    and down: "\<And>s'. e = MouseDown \<Longrightarrow> onMouseDown s = Some s' \<Longrightarrow> P s'"
    and move: "\<And>w s'. e = MouseMove w \<Longrightarrow> onMouseMove w s = Some s' \<Longrightarrow> P s'"
    and up: "\<And>s'. e = MouseUp \<Longrightarrow> onMouseUp s = Some s' \<Longrightarrow> P s'"
    and frame: "e = Frame \<Longrightarrow> P (tick s)"
    and "P s" and "handle e s = Some s'"
  shows "P s'"
proof (cases e)
  case MouseDown
  with assms(7) show ?thesis by (simp add: down)
next
  case (MouseMove w)
  with assms(7) show ?thesis by (simp add: move)
next
  case MouseUp
  with assms(7) show ?thesis by (simp add: up)
next
  case Frame
  with assms(7) frame show ?thesis by auto
next
  case StartGame
  with assms(7) have "startGame s = Some s'" by simp
  then show ?thesis by (rule startGame_stable [OF sig assms(6)])
next
  case NextLevel
  with assms(7) have "nextLevel s = Some s'" by simp
  then show ?thesis by (rule nextLevel_stable [OF sig assms(6)])
next
  case RetryLevel
  with assms(7) have "retryLevel s = Some s'" by simp
  then show ?thesis by (rule retryLevel_stable [OF sig assms(6)])
next
  case OpenLevelSelect
  with assms(7) have "openLevelSelect s = Some s'" by simp
  then show ?thesis by (rule openLevelSelect_stable [OF sig assms(6)])
next
  case (SelectLevel i)
  with assms(7) have "selectLevel i s = Some s'" by simp
  then show ?thesis by (rule selectLevel_stable [OF sig assms(6)])
next
  case BackToMenu
  with assms(7) have "backToMenu s = Some s'" by simp
  then show ?thesis by (rule backToMenu_stable [OF sig assms(6)])
next
  case MenuButton
  with assms(7) have "menuButton s = Some s'" by simp
  then show ?thesis by (rule menuButton_stable [OF sig assms(6)])
qed

lemma initLevel_fields:
  assumes "initLevel i s = Some s'"
  shows "completedLevels s' = completedLevels s" "isDragging s' = isDragging s"
    "launchPower s' = launchPower s" "launchAngle s' = launchAngle s"
    "goal s' = Some (level_goal (LEVELS ! i))" "i < length LEVELS"
    "spacecraft s' = Some (level_spacecraft (LEVELS ! i))"
    "attempts s' = attempts s + 1" "gameState s' = Aiming" "spacecraftVelocity s' = vzero"
    "trailPositions s' = []" "currentLevel s' = currentLevel s"
    "showMenu s' = showMenu s" "showLevelSelect s' = showLevelSelect s"
  using assms by (auto simp: initLevel_def Let_def split: if_splits)

lemma completed_signalStable: "signalStable (\<lambda>s. completedLevels s = C)"
  unfolding signalStable_def by (simp add: initLevel_fields(1))

lemma goal_signalStable: "signalStable goalOfCatalogue"
proof -
  have "goalOfCatalogue s'" if "initLevel i s = Some s'" for i s s'
  proof -
    from that have "goal s' = Some (level_goal (LEVELS ! i))" and "i < length LEVELS"
      by (rule initLevel_fields)+
    then show ?thesis by (simp add: goalOfCatalogue_def)
  qed
  then show ?thesis
    unfolding signalStable_def by (simp add: goalOfCatalogue_def)
qed

lemma animate_fields:
  "goal (fst (animate s)) = goal s" "planets (fst (animate s)) = planets s"
  "currentLevel (fst (animate s)) = currentLevel s"
  "isDragging (fst (animate s)) = isDragging s"
  "spacecraft s \<noteq> None \<Longrightarrow> spacecraft (fst (animate s)) \<noteq> None"
  by (auto simp: animate_def setGameState_def goalCheck_def boundsCheck_def Let_def
      split: option.splits)

lemma animate_completed:
  "completedLevels (fst (animate s)) = completedLevels s
   \<or> (completedLevels (fst (animate s)) = insert (currentLevel s) (completedLevels s)
      \<and> Success \<in> set (snd (animate s)))"
  by (auto simp: animate_def setGameState_def goalCheck_def boundsCheck_def Let_def
      split: option.splits)

lemma mouse_fields:
  "onMouseDown s = Some s' \<Longrightarrow> completedLevels s' = completedLevels s \<and> goal s' = goal s
     \<and> spacecraftVelocity s' = spacecraftVelocity s \<and> spacecraft s' = spacecraft s
     \<and> (isDragging s' \<longrightarrow> isDragging s \<or> spacecraft s \<noteq> None)"
  "onMouseMove w s = Some s' \<Longrightarrow> completedLevels s' = completedLevels s \<and> goal s' = goal s
     \<and> spacecraftVelocity s' = spacecraftVelocity s \<and> spacecraft s' = spacecraft s
     \<and> isDragging s' = isDragging s"
  "onMouseUp s = Some s' \<Longrightarrow> completedLevels s' = completedLevels s \<and> goal s' = goal s
     \<and> spacecraft s' = spacecraft s \<and> (isDragging s' \<longrightarrow> isDragging s)"
  by (auto simp: onMouseDown_def onMouseMove_def onMouseUp_def Let_def
      split: if_splits option.splits)

lemma handle_completed:
  assumes "handle e s = Some s'"
  shows "completedLevels s' = completedLevels s
     \<or> (e = Frame \<and> completedLevels s' = insert (currentLevel s) (completedLevels s)
        \<and> Success \<in> set (snd (animate s)))"
proof (cases "e = Frame")
  case True
  with assms animate_completed [of s] show ?thesis by (auto simp: tick_def)
next
  case False
  have "completedLevels s' = completedLevels s"
  proof (rule handle_stable [where P = "\<lambda>t. completedLevels t = completedLevels s" and s = s and e = e])
    show "signalStable (\<lambda>t. completedLevels t = completedLevels s)" by (rule completed_signalStable)
  qed (use assms False in \<open>auto simp: mouse_fields\<close>)
  then show ?thesis ..
qed

lemma run_completed: "run es s = Some s' \<Longrightarrow> completedLevels s \<subseteq> completedLevels s'"
proof (induction es arbitrary: s)
  case Nil
  then show ?case by simp
next
  case (Cons e es)
  then obtain s1 where 1: "handle e s = Some s1" and 2: "run es s1 = Some s'"
    by (auto split: option.splits)
  from handle_completed [OF 1] have "completedLevels s \<subseteq> completedLevels s1" by auto
  with Cons.IH [OF 2] show ?case by simp
qed

lemma reachable_goalOfCatalogue: "reachable s \<Longrightarrow> goalOfCatalogue s"
proof (induction rule: reachable.induct)
  case reachable_initial
  show ?case by (simp add: goalOfCatalogue_def initialState_def)
next
  case (reachable_handle s e s')
  show ?case
  proof (rule handle_stable [where P = goalOfCatalogue and s = s and e = e])
    show "signalStable goalOfCatalogue" by (rule goal_signalStable)
  qed (use reachable_handle in \<open>auto simp: mouse_fields goalOfCatalogue_def tick_def animate_fields\<close>)
qed

subsection \<open>The gravity field\<close>

text \<open>
  Claim C1. At every point and for every list of bodies, the gravity loop either reports
  a collision, when some body is nearer than its threshold, or returns the contributions
  \<open>8 * mass / (r + 10)\<^sup>2\<close> along the unit vector from the point toward the body, added
  from the left in list order: \<open>((0 addn c\<^sub>1) addn c\<^sub>2) addn \<dots>\<close> for whatever addition
  \<open>addn\<close> of numbers the loop runs over, associative or not. With the numbers read as
  reals, both copies of the loop (the predictor's, the integrator's) return the sum of
  the contributions. The softening is added to the distance before squaring: for a body
  of mass \<open>225\<close> at distance \<open>5\<close> the contribution is \<open>8\<close>, where \<open>r\<^sup>2 + 10\<close> would give
  \<open>360 / 7\<close>.
\<close>

theorem gravity_field_sum:
  "gravityLoopWith addn threshold point (Vec 0 0) bodies =
     (if (\<exists>body \<in> set bodies. spec_distance point body < threshold body) then None
      else Some (spec_sum addn (Vec 0 0) (map (spec_contribution point) bodies)))
   \<and> gravityLoop predictorThreshold point vzero bodies =
     (if (\<exists>body \<in> set bodies. spec_distance point body < radius body) then None
      else Some (Vec (sum_list (map (\<lambda>body. vx (spec_contribution point body)) bodies))
                     (sum_list (map (\<lambda>body. vy (spec_contribution point body)) bodies))))
   \<and> gravityLoop integratorThreshold point vzero bodies =
     (if (\<exists>body \<in> set bodies. spec_distance point body < radius body + 0.5) then None
      else Some (Vec (sum_list (map (\<lambda>body. vx (spec_contribution point body)) bodies))
                     (sum_list (map (\<lambda>body. vy (spec_contribution point body)) bodies))))
   \<and> spec_contribution (Vec 0 0) (createPlanet 5 0 225 1) = Vec 8 0
   \<and> wrong_contribution (Vec 0 0) (createPlanet 5 0 225 1) = Vec (360 / 7) 0"
proof -
  have ordered: "gravityLoopWith addn threshold point (Vec 0 0) bodies =
     (if (\<exists>body \<in> set bodies. spec_distance point body < threshold body) then None
      else Some (spec_sum addn (Vec 0 0) (map (spec_contribution point) bodies)))"
    using gravityLoopWith_None [of bodies point threshold addn "Vec 0 0"]
      gravityLoopWith_Some [of bodies point threshold addn "Vec 0 0"]
    by simp
  have loop: "gravityLoop thr point vzero bodies =
     (if (\<exists>body \<in> set bodies. spec_distance point body < thr body) then None
      else Some (Vec (sum_list (map (\<lambda>body. vx (spec_contribution point body)) bodies))
                     (sum_list (map (\<lambda>body. vy (spec_contribution point body)) bodies))))"
    for thr
    using gravityLoop_None [of bodies point thr vzero] gravityLoop_Some [of bodies point thr]
    by (simp add: spec_acceleration_def)
  have right: "spec_contribution (Vec 0 0) (createPlanet 5 0 225 1) = Vec 8 0"
    by (simp add: spec_contribution_def spec_distance_def createPlanet_def sqrt_25 Let_def)
  have wrong: "wrong_contribution (Vec 0 0) (createPlanet 5 0 225 1) = Vec (360 / 7) 0"
    by (simp add: wrong_contribution_def spec_distance_def createPlanet_def sqrt_25 Let_def)
  from ordered loop [of predictorThreshold] loop [of integratorThreshold] right wrong
  show ?thesis
    by (simp only: predictorThreshold_def integratorThreshold_def simp_thms)
qed

text \<open>
  Three bodies at distance \<open>5\<close> from the origin, two to the right and one to the left,
  with contributions \<open>(8, 0)\<close>, \<open>(8, 0)\<close> and \<open>(-8, 0)\<close>. Over the reals the loop
  returns their sum \<open>(8, 0)\<close>. Over the saturating addition the list order shows:
  \<open>(8 + 8) - 8\<close> is cut at \<open>10\<close> before the last body is added and gives \<open>2\<close>, while
  the reversed list gives \<open>(-8 + 8) + 8 = 8\<close>.
\<close>

lemma three_contributions:
  "spec_contribution (Vec 0 0) (createPlanet 5 0 225 1) = Vec 8 0"
  "spec_contribution (Vec 0 0) (createPlanet (-5) 0 225 1) = Vec (-8) 0"
  by (simp_all add: spec_contribution_def spec_distance_def createPlanet_def sqrt_25 Let_def)

lemma three_distances:
  "spec_distance (Vec 0 0) (createPlanet 5 0 225 r) = 5"
  "spec_distance (Vec 0 0) (createPlanet (-5) 0 225 r) = 5"
  by (simp_all add: spec_distance_def createPlanet_def sqrt_25)

lemma radius_createPlanet: "radius (createPlanet x y m r) = r"
  by (simp add: createPlanet_def)

theorem gravity_field_sum_witness:
  "gravityLoop integratorThreshold (Vec 0 0) vzero
      [createPlanet 5 0 225 1, createPlanet 5 0 225 1, createPlanet (-5) 0 225 1]
     = Some (Vec 8 0)
   \<and> gravityLoop predictorThreshold (Vec 0 0) vzero
      [createPlanet 5 0 225 1, createPlanet 5 0 225 6] = None
   \<and> gravityLoopWith saturatingAdd integratorThreshold (Vec 0 0) (Vec 0 0)
      [createPlanet 5 0 225 1, createPlanet 5 0 225 1, createPlanet (-5) 0 225 1]
     = Some (Vec 2 0)
   \<and> gravityLoopWith saturatingAdd integratorThreshold (Vec 0 0) (Vec 0 0)
      [createPlanet (-5) 0 225 1, createPlanet 5 0 225 1, createPlanet 5 0 225 1]
     = Some (Vec 8 0)"
  using gravity_field_sum [of "(+)" integratorThreshold "Vec 0 0"
      "[createPlanet 5 0 225 1, createPlanet 5 0 225 1, createPlanet (-5) 0 225 1]"]
    gravity_field_sum [of "(+)" integratorThreshold "Vec 0 0"
      "[createPlanet 5 0 225 1, createPlanet 5 0 225 6]"]
    gravity_field_sum [of saturatingAdd integratorThreshold "Vec 0 0"
      "[createPlanet 5 0 225 1, createPlanet 5 0 225 1, createPlanet (-5) 0 225 1]"]
    gravity_field_sum [of saturatingAdd integratorThreshold "Vec 0 0"
      "[createPlanet (-5) 0 225 1, createPlanet 5 0 225 1, createPlanet 5 0 225 1]"]
  by (simp add: three_contributions three_distances radius_createPlanet integratorThreshold_def
      saturatingAdd_def)

subsection \<open>The flight integrator: collision\<close>

text \<open>
  Claim C2. In a frame of a flight, when the craft is nearer than \<open>radius + 0.5\<close> to
  some planet, the frame sets the phase to \<open>Failed\<close> and changes nothing else: the
  position, the velocity and the trail of the craft are those before the frame.
\<close>

theorem collision_fails_without_update:
  assumes "gameState s = Flying"
    and "spacecraft s = Some p"
    and "\<exists>body \<in> set (planets s). distanceTo p (position body) < radius body + 0.5"
  shows "tick s = s\<lparr>gameState := Failed\<rparr>
     \<and> snd (animate s) = [Failed]
     \<and> spacecraft (tick s) = Some p
     \<and> spacecraftVelocity (tick s) = spacecraftVelocity s
     \<and> trailPositions (tick s) = trailPositions s"
proof -
  from assms(3) have "gravityLoop integratorThreshold p vzero (planets s) = None"
    by (intro gravityLoop_None) (simp add: integratorThreshold_def distanceTo_spec)
  with assms(1,2) have "animate s = (s\<lparr>gameState := Failed\<rparr>, [Failed])"
    by (simp add: animate_def setGameState_def)
  with assms(2) show ?thesis
    by (simp add: tick_def)
qed

theorem collision_fails_without_update_witness:
  "tick (initialState\<lparr>gameState := Flying, spacecraft := Some (Vec 3 0),
          spacecraftVelocity := Vec 1 0, planets := [createPlanet 0 0 1500 4],
          trailPositions := [Vec 3 0]\<rparr>)
   = initialState\<lparr>gameState := Failed, spacecraft := Some (Vec 3 0),
          spacecraftVelocity := Vec 1 0, planets := [createPlanet 0 0 1500 4],
          trailPositions := [Vec 3 0]\<rparr>"
  using collision_fails_without_update
    [of "initialState\<lparr>gameState := Flying, spacecraft := Some (Vec 3 0),
          spacecraftVelocity := Vec 1 0, planets := [createPlanet 0 0 1500 4],
          trailPositions := [Vec 3 0]\<rparr>" "Vec 3 0"]
  by (simp add: distanceTo_def createPlanet_def sqrt_9)

subsection \<open>The trajectory predictor\<close>

lemma predictLoop_refines:
  "predictLoop ps (Some g) (0.016 * 3) n pos vel = spec_predict ps g n pos vel"
proof (induction n arbitrary: pos vel)
  case 0
  show ?case by simp
next
  case (Suc n)
  show ?case
  proof (cases "spec_collides pos ps")
    case True
    then have "gravityLoop predictorThreshold pos vzero ps = None"
      by (intro gravityLoop_None) (simp add: spec_collides_def predictorThreshold_def)
    with True show ?thesis by simp
  next
    case False
    then have "gravityLoop predictorThreshold pos vzero ps = Some (spec_acceleration pos ps)"
      by (intro gravityLoop_Some) (simp add: spec_collides_def predictorThreshold_def)
    with False Suc show ?thesis
      by (simp add: goalWithin_def distanceTo_def spec_goal_distance_def GOAL_RADIUS_def
          power2_eq_square Let_def vadd_def multiplyScalar_def)
  qed
qed

lemma predictLoop_length: "length (predictLoop ps g dt n pos vel) \<le> n"
  by (induction n arbitrary: pos vel) (auto simp: Let_def split: option.splits)

text \<open>
  Claim C5. For every start position, start velocity, list of bodies and goal, the
  predictor computes what the specification describes: at most \<open>steps\<close> steps of
  \<open>dt = 0.048\<close>; a step stops without a position when a body is nearer than its radius
  or the goal nearer than \<open>3.75\<close>; otherwise the velocity takes the acceleration, the
  position takes the new velocity, the position is appended, and the run stops after it
  when \<open>|x| > 60\<close> or \<open>|y| > 50\<close>. The preview asks for \<open>100\<close> steps and gets at most
  \<open>100\<close> positions.
\<close>

theorem predictTrajectory_spec:
  "predictTrajectory ps (Some g) startPos velocity steps = spec_predict ps g steps startPos velocity
   \<and> length (predictTrajectory ps (Some g) startPos velocity steps) \<le> steps
   \<and> updateTrajectoryLine ps (Some g) startPos velocity = spec_predict ps g 100 startPos velocity
   \<and> length (updateTrajectoryLine ps (Some g) startPos velocity) \<le> 100"
  unfolding updateTrajectoryLine_def predictTrajectory_def
  using predictLoop_refines [of ps g steps startPos velocity]
    predictLoop_refines [of ps g 100 startPos velocity]
    predictLoop_length [of ps "Some g" "0.016 * 3" steps startPos velocity]
    predictLoop_length [of ps "Some g" "0.016 * 3" 100 startPos velocity]
  by (simp only: simp_thms)

lemma spec_goal_distance_axis: "spec_goal_distance (Vec a c) (Vec b c) = \<bar>a - b\<bar>"
  by (simp add: spec_goal_distance_def)

lemma spec_predict_collision:
  "spec_collides pos bodies \<Longrightarrow> 0 < n \<Longrightarrow> spec_predict bodies g n pos vel = []"
  by (cases n) simp_all

theorem predictTrajectory_spec_witness:
  "predictTrajectory [] (Some (Vec 20 0)) (Vec (-20) 0) (Vec 15 0) 2
     = [Vec (-19.28) 0, Vec (-18.56) 0]
   \<and> predictTrajectory [createPlanet 0 0 1500 4] (Some (Vec 20 0)) (Vec 3 0) (Vec 15 0) 100 = []"
proof -
  have free: "spec_predict [] (Vec 20 0) (Suc (Suc 0)) (Vec (-20) 0) (Vec 15 0)
     = [Vec (-19.28) 0, Vec (-18.56) 0]"
    by (simp add: spec_collides_def spec_goal_distance_axis spec_acceleration_def vzero_def
        Let_def)
  have "spec_collides (Vec 3 0) [createPlanet 0 0 1500 4]"
    by (simp add: spec_collides_def spec_distance_def createPlanet_def sqrt_9)
  then have hit: "spec_predict [createPlanet 0 0 1500 4] (Vec 20 0) 100 (Vec 3 0) (Vec 15 0) = []"
    by (rule spec_predict_collision) simp
  from predictTrajectory_spec [of "[]" "Vec 20 0" "Vec (-20) 0" "Vec 15 0" 2]
    predictTrajectory_spec [of "[createPlanet 0 0 1500 4]" "Vec 20 0" "Vec 3 0" "Vec 15 0" 100]
  show ?thesis
    by (simp add: free hit numeral_2_eq_2 del: spec_predict.simps)
qed

subsection \<open>Running the handlers on concrete events\<close>

lemmas button_defs = startGame_def nextLevel_def retryLevel_def openLevelSelect_def
  selectLevel_def backToMenu_def menuButton_def setCurrentLevel_def setRetryCounter_def
  setShowMenu_def setShowLevelSelect_def levelEffect_def initLevel_def initialState_def
  LEVELS_def

lemmas mouse_defs = onMouseDown_def onMouseMove_def onMouseUp_def launchVelocity_def
  atan2_def LAUNCH_POWER_MULTIPLIER_def


lemma run_reachable:
  "reachable s \<Longrightarrow> list_all viewOffers es \<Longrightarrow> run es s = Some s' \<Longrightarrow> reachable s'"
proof (induction es arbitrary: s)
  case Nil
  then show ?case by simp
next
  case (Cons e es)
  from Cons.prems(3) obtain s1 where 1: "handle e s = Some s1" and 2: "run es s1 = Some s'"
    by (auto split: option.splits)
  from Cons.prems(1,2) 1 have "reachable s1"
    by (auto intro: reachable_handle)
  with Cons.prems(2) 2 show ?case
    by (auto intro: Cons.IH)
qed




subsection \<open>The trail as a window on the history\<close>

lemma updateTrail_drop:
  assumes "length t \<le> MAX_TRAIL_LENGTH"
  shows "updateTrail p t = drop (length t + 1 - MAX_TRAIL_LENGTH) (t @ [p])"
proof (cases "length t = MAX_TRAIL_LENGTH")
  case True
  then have "updateTrail p t = tl (t @ [p])"
    by (simp add: updateTrail_def)
  also have "\<dots> = drop 1 (t @ [p])"
    by (simp only: One_nat_def drop_Suc drop_0)
  finally show ?thesis using True by simp
next
  case False
  with assms have "length t < MAX_TRAIL_LENGTH" by simp
  then show ?thesis by (simp add: updateTrail_def)
qed

lemma drop_window:
  "drop (length (drop (length h - m) h) + 1 - m) (drop (length h - m) h @ [p])
     = drop (length h + 1 - m) (h @ [p])"
proof (cases "length h \<le> m")
  case True
  then show ?thesis by simp
next
  case False
  then have less: "m < length h" by simp
  show ?thesis
  proof (cases m)
    case 0
    then show ?thesis by simp
  next
    case (Suc k)
    with less have one: "length (drop (length h - m) h) + 1 - m = 1"
      by simp
    have "drop 1 (drop (length h - m) h @ [p]) = drop 1 (drop (length h - m) h) @ [p]"
      using less Suc by simp
    also have "drop 1 (drop (length h - m) h) = drop (length h + 1 - m) h"
      using less by (simp add: Suc_diff_le)
    also have "drop (length h + 1 - m) h @ [p] = drop (length h + 1 - m) (h @ [p])"
      using less Suc by simp
    finally show ?thesis
      unfolding one .
  qed
qed

lemma tick_flying:
  assumes "gameState s = Flying" and "spacecraft s \<noteq> None" and "gameState (tick s) = Flying"
  shows "spacecraft (tick s) \<noteq> None
     \<and> trailPositions (tick s) = updateTrail (the (spacecraft (tick s))) (trailPositions s)"
  using assms
  by (auto simp: tick_def animate_def setGameState_def goalCheck_def boundsCheck_def Let_def
      split: option.splits if_splits)

lemma flight_craft:
  "spacecraft s \<noteq> None \<Longrightarrow> spacecraft (flight n s) \<noteq> None"
  by (induction n) (simp_all add: tick_def animate_fields(5))

lemma visited_simps:
  "visited 0 s = []"
  "visited (Suc n) s = visited n s @ [the (spacecraft (flight (Suc n) s))]"
  "length (visited n s) = n"
  by (simp_all add: visited_def del: flight.simps)

lemma trail_history:
  assumes "\<forall>k \<le> n. gameState (flight k s) = Flying"
    and "spacecraft s \<noteq> None"
    and "length (trailPositions s) \<le> MAX_TRAIL_LENGTH"
  shows "trailPositions (flight n s) =
     drop (length (trailPositions s) + n - MAX_TRAIL_LENGTH) (trailPositions s @ visited n s)"
  using assms(1)
proof (induction n)
  case 0
  with assms(3) show ?case by (simp add: visited_simps)
next
  case (Suc n)
  let ?h = "trailPositions s @ visited n s"
  let ?p = "the (spacecraft (flight (Suc n) s))"
  from Suc.prems have fly: "gameState (flight n s) = Flying" "gameState (tick (flight n s)) = Flying"
    and before: "\<forall>k \<le> n. gameState (flight k s) = Flying"
    using le_Suc_eq by (auto simp del: flight.simps simp add: flight.simps(2) [symmetric])
  from Suc.IH [OF before] have ih: "trailPositions (flight n s) = drop (length ?h - MAX_TRAIL_LENGTH) ?h"
    by (simp add: visited_simps)
  then have len: "length (trailPositions (flight n s)) \<le> MAX_TRAIL_LENGTH"
    by simp
  from tick_flying [OF fly(1) flight_craft [OF assms(2)] fly(2)]
  have "trailPositions (flight (Suc n) s) = updateTrail ?p (trailPositions (flight n s))"
    by simp
  also have "\<dots> = drop (length (trailPositions (flight n s)) + 1 - MAX_TRAIL_LENGTH)
      (trailPositions (flight n s) @ [?p])"
    by (rule updateTrail_drop [OF len])
  also have "\<dots> = drop (length ?h + 1 - MAX_TRAIL_LENGTH) (?h @ [?p])"
    unfolding ih by (rule drop_window)
  also have "?h @ [?p] = trailPositions s @ visited (Suc n) s"
    by (simp add: visited_simps del: flight.simps)
  finally show ?case by (simp add: visited_simps del: flight.simps)
qed

subsection \<open>The session: completed levels and attempts\<close>

text \<open>
  Claim C10. The set \<open>completedLevels\<close> never shrinks. Over every sequence of events
  (mouse, frames, retry, level selection, next level, back to the menu, start) the set
  at the end contains the set at the start; a single event leaves it as it is, except a
  frame whose goal check has called \<open>setGameState('success')\<close>, which inserts the
  current level.
\<close>

theorem completedLevels_monotone:
  "(run es s = Some s' \<longrightarrow> completedLevels s \<subseteq> completedLevels s')
   \<and> (handle e s = Some t \<longrightarrow>
        completedLevels t = completedLevels s
        \<or> (e = Frame \<and> completedLevels t = insert (currentLevel s) (completedLevels s)
           \<and> Success \<in> set (snd (animate s))))"
  using run_completed [of es s s'] handle_completed [of e s t] by blast

theorem completedLevels_monotone_witness:
  "run [RetryLevel, MenuButton, OpenLevelSelect, SelectLevel 2, NextLevel, MenuButton, StartGame]
        (initialState\<lparr>showMenu := False, completedLevels := {0, 1}\<rparr>) \<noteq> None
   \<and> {0, 1} \<subseteq> completedLevels (the (run
        [RetryLevel, MenuButton, OpenLevelSelect, SelectLevel 2, NextLevel, MenuButton, StartGame]
        (initialState\<lparr>showMenu := False, completedLevels := {0, 1}\<rparr>)))"
  using completedLevels_monotone
    [of "[RetryLevel, MenuButton, OpenLevelSelect, SelectLevel 2, NextLevel, MenuButton, StartGame]"
        "initialState\<lparr>showMenu := False, completedLevels := {0, 1}\<rparr>"
        "the (run [RetryLevel, MenuButton, OpenLevelSelect, SelectLevel 2, NextLevel, MenuButton, StartGame]
        (initialState\<lparr>showMenu := False, completedLevels := {0, 1}\<rparr>))"]
  by (simp add: button_defs)

text \<open>
  Claim C3, as stated, fails on the retry: from a fresh application, \<open>Start Game\<close>
  enters level \<open>0\<close>, and one \<open>Retry\<close> on the same level leaves the counter one
  higher than it was.
\<close>

theorem retry_increments_attempts:
  "run [StartGame] initialState \<noteq> None
   \<and> run [StartGame, RetryLevel] initialState \<noteq> None
   \<and> currentLevel (the (run [StartGame, RetryLevel] initialState))
       = currentLevel (the (run [StartGame] initialState))
   \<and> attempts (the (run [StartGame, RetryLevel] initialState))
       = attempts (the (run [StartGame] initialState)) + 1"
  by (simp add: button_defs)

text \<open>
  Claim C3, amended. The counter is incremented by exactly one by every initialisation
  of a level (\<open>initLevel\<close>). With the game view showing, the retry action initialises
  the current level again and so increments the counter by one, as advancing to the
  next level does.
\<close>

theorem attempts_count_initialisations:
  "(initLevel i s = Some s' \<longrightarrow> attempts s' = attempts s + 1)
   \<and> (\<not> showMenu s \<and> \<not> showLevelSelect s \<and> currentLevel s < length LEVELS \<longrightarrow>
        (\<exists>t. retryLevel s = Some t \<and> attempts t = attempts s + 1
           \<and> currentLevel t = currentLevel s))
   \<and> (\<not> showMenu s \<and> \<not> showLevelSelect s \<and> currentLevel s + 1 < length LEVELS \<longrightarrow>
        (\<exists>t. nextLevel s = Some t \<and> attempts t = attempts s + 1
           \<and> currentLevel t = currentLevel s + 1))"
  by (auto simp: initLevel_def Let_def retryLevel_def nextLevel_def setRetryCounter_def
      setCurrentLevel_def levelEffect_def)

theorem attempts_count_initialisations_witness:
  "map_option attempts (retryLevel (initialState\<lparr>showMenu := False, attempts := 4\<rparr>)) = Some 5
   \<and> map_option attempts (nextLevel (initialState\<lparr>showMenu := False, attempts := 4\<rparr>)) = Some 5
   \<and> map_option attempts (initLevel 3 (initialState\<lparr>attempts := 4\<rparr>)) = Some 5"
  using attempts_count_initialisations [of 3 "initialState\<lparr>attempts := 4\<rparr>"
      "the (initLevel 3 (initialState\<lparr>attempts := 4\<rparr>))"]
    attempts_count_initialisations [of 0 "initialState\<lparr>showMenu := False, attempts := 4\<rparr>"]
  by (simp add: button_defs)

subsection \<open>The aim across a reset\<close>

text \<open>
  Claim C8, evaluated on the code. The player starts level \<open>0\<close>, presses the mouse,
  drags to \<open>(-40, 0)\<close> (power \<open>20\<close>, angle \<open>0\<close>), the level is retried while the button
  is still held, and the button is released. \<open>initLevel\<close> resets the craft, its
  velocity and the phase, but neither \<open>isDragging\<close> nor \<open>launchPower\<close> nor
  \<open>launchAngle\<close>: after the retry the drag is still active with power \<open>20\<close>, and the
  release launches the fresh run at velocity \<open>(10, 0)\<close>, the aim taken before the reset.
\<close>

theorem stale_aim_launches_after_retry:
  "map_option (\<lambda>s. (gameState s, isDragging s, launchPower s, launchAngle s,
        spacecraft s, spacecraftVelocity s))
     (run [StartGame, MouseDown, MouseMove (Vec (-40) 0), RetryLevel] initialState)
   = Some (Aiming, True, 20, 0, Some (Vec (-20) 0), Vec 0 0)
   \<and> map_option (\<lambda>s. (gameState s, spacecraft s, spacecraftVelocity s))
     (run [StartGame, MouseDown, MouseMove (Vec (-40) 0), RetryLevel, MouseUp] initialState)
   = Some (Flying, Some (Vec (-20) 0), Vec 10 0)"
  by (simp add: button_defs mouse_defs sqrt_400 vzero_def Let_def)

subsection \<open>Releasing the mouse\<close>



subsection \<open>The straight shot of level 0\<close>

lemma distanceTo_axis: "distanceTo (Vec a c) (Vec b c) = \<bar>a - b\<bar>"
  by (simp add: distanceTo_def)

lemma straightShot_run:
  "run [StartGame, MouseDown, MouseMove (Vec (-50) 0), MouseUp] initialState = Some straightShot"
  by (simp add: straightShot_def button_defs mouse_defs sqrt_900 Let_def)

lemma straightShot_eq:
  "straightShot = initialState\<lparr>showMenu := False, gameState := Flying,
     spacecraft := Some (Vec (-20) 0), spacecraftVelocity := Vec 15 0, goal := Some (Vec 20 0)\<rparr>"
  by (simp add: straightShot_def button_defs mouse_defs sqrt_900 Let_def vzero_def)

lemma straightShot_reachable: "reachable straightShot"
  by (rule run_reachable [OF reachable_initial _ straightShot_run]) simp

lemma tick_straight:
  assumes "- 20 \<le> x" and "x \<le> 16.76"
  shows "tick (straightShot\<lparr>spacecraft := Some (Vec x 0), trailPositions := t\<rparr>)
     = straightShot\<lparr>spacecraft := Some (Vec (x + 0.24) 0),
          trailPositions := updateTrail (Vec (x + 0.24) 0) t\<rparr>"
  using assms
  by (simp add: straightShot_eq initialState_def tick_def animate_def goalCheck_def
      boundsCheck_def goalWithin_def distanceTo_axis GOAL_RADIUS_def vadd_def
      multiplyScalar_def vzero_def Let_def)

lemma straight_flight:
  "k \<le> 154 \<Longrightarrow> \<exists>t. flight k straightShot
     = straightShot\<lparr>spacecraft := Some (Vec (- 20 + 0.24 * real k) 0), trailPositions := t\<rparr>"
proof (induction k)
  case 0
  have "straightShot = straightShot\<lparr>spacecraft := Some (Vec (- 20) 0), trailPositions := []\<rparr>"
    by (simp add: straightShot_eq initialState_def)
  then show ?case by auto
next
  case (Suc k)
  then obtain t where t: "flight k straightShot
     = straightShot\<lparr>spacecraft := Some (Vec (- 20 + 0.24 * real k) 0), trailPositions := t\<rparr>"
    by auto
  from Suc.prems have "real k \<le> 153" by simp
  then have "- 20 \<le> - 20 + 0.24 * real k" and "- 20 + 0.24 * real k \<le> 16.76"
    by simp_all
  from tick_straight [OF this, of t] t
  have "flight (Suc k) straightShot
     = straightShot\<lparr>spacecraft := Some (Vec (- 20 + 0.24 * real k + 0.24) 0),
          trailPositions := updateTrail (Vec (- 20 + 0.24 * real k + 0.24) 0) t\<rparr>"
    by simp
  moreover have "- 20 + 0.24 * real k + 0.24 = - 20 + 0.24 * real (Suc k)"
    by (simp add: field_simps)
  ultimately show ?case
    by (auto simp del: flight.simps of_nat_Suc)
qed

lemma straight_flight_flying: "k \<le> 154 \<Longrightarrow> gameState (flight k straightShot) = Flying"
  using straight_flight [of k] by (auto simp: straightShot_eq simp del: flight.simps)

lemma flight_reachable: "reachable s \<Longrightarrow> reachable (flight n s)"
proof (induction n)
  case 0
  then show ?case by simp
next
  case (Suc n)
  then have "reachable (flight n s)" by simp
  moreover have "viewOffers Frame" by simp
  moreover have "handle Frame (flight n s) = Some (flight (Suc n) s)" by simp
  ultimately show ?case by (rule reachable_handle)
qed

subsection \<open>The trail\<close>

text \<open>
  Claim C9. Take \<open>n\<close> frames of a flight none of which ends it (the phase is \<open>Flying\<close>
  before and after each), from a state whose trail has at most \<open>100\<close> entries. The trail
  after them is the history, the old trail followed by the positions after each frame in
  the order of the frames, cut at the front to its last \<open>100\<close> entries: its length is
  \<open>min (old length + n) 100\<close>, hence \<open>100\<close> once \<open>n > 100\<close>, and from the empty trail of
  a fresh run it consists of the positions of the last \<open>100\<close> frames.
\<close>

theorem trail_is_bounded_history:
  assumes "\<forall>k \<le> n. gameState (flight k s) = Flying"
    and "spacecraft s \<noteq> None"
    and "length (trailPositions s) \<le> MAX_TRAIL_LENGTH"
  shows "trailPositions (flight n s) =
       drop (length (trailPositions s) + n - MAX_TRAIL_LENGTH) (trailPositions s @ visited n s)
     \<and> length (trailPositions (flight n s)) = min (length (trailPositions s) + n) 100
     \<and> (100 < n \<longrightarrow> length (trailPositions (flight n s)) = 100)
     \<and> (trailPositions s = [] \<longrightarrow> trailPositions (flight n s) = drop (n - 100) (visited n s))"
proof -
  have h: "trailPositions (flight n s) =
       drop (length (trailPositions s) + n - MAX_TRAIL_LENGTH) (trailPositions s @ visited n s)"
    using assms by (rule trail_history)
  have "length (trailPositions (flight n s)) = min (length (trailPositions s) + n) 100"
    unfolding h by (simp add: visited_simps(3) MAX_TRAIL_LENGTH_def)
  moreover have "trailPositions (flight n s) = drop (n - 100) (visited n s)"
    if "trailPositions s = []"
    unfolding h using that by (simp add: MAX_TRAIL_LENGTH_def)
  ultimately show ?thesis using h by simp
qed

theorem trail_is_bounded_history_witness:
  "length (trailPositions (flight 101 straightShot)) = 100
   \<and> trailPositions (flight 101 straightShot) = drop 1 (visited 101 straightShot)
   \<and> length (trailPositions (flight 3 straightShot)) = 3"
proof -
  have fly: "\<forall>k \<le> n. gameState (flight k straightShot) = Flying" if "n \<le> 154" for n
    using that by (auto intro: straight_flight_flying)
  have craft: "spacecraft straightShot \<noteq> None"
    and trail: "trailPositions straightShot = []"
    by (simp_all add: straightShot_eq initialState_def)
  from trail have bound: "length (trailPositions straightShot) \<le> MAX_TRAIL_LENGTH"
    by simp
  from trail_is_bounded_history [OF fly craft bound, of 101]
    trail_is_bounded_history [OF fly craft bound, of 3] trail
  show ?thesis
    by (simp add: MAX_TRAIL_LENGTH_def visited_simps(3) del: flight.simps)
qed

subsection \<open>The checks of a frame\<close>

lemma catalogue_goal_bounds:
  "g \<in> set (map level_goal LEVELS) \<Longrightarrow> \<bar>vx g\<bar> \<le> 35 \<and> \<bar>vy g\<bar> \<le> 20"
  by (auto simp: LEVELS_def)

lemma distanceTo_components:
  "\<bar>vx p - vx g\<bar> \<le> distanceTo p g" "\<bar>vy p - vy g\<bar> \<le> distanceTo p g"
  using real_sqrt_ge_abs1 [of "vx p - vx g" "vy p - vy g"]
    real_sqrt_ge_abs2 [of "vy p - vy g" "vx p - vx g"]
  by (simp_all add: distanceTo_def power2_eq_square)

lemma goal_excludes_bounds:
  assumes "goalOfCatalogue s" and "goalWithin (goal s) p (GOAL_RADIUS * 1.2)"
  shows "\<not> (\<bar>vx p\<bar> > 55 \<or> \<bar>vy p\<bar> > 45)"
proof -
  from assms(2) obtain g where g: "goal s = Some g" and near: "distanceTo p g < 3"
    by (auto simp: goalWithin_def GOAL_RADIUS_def split: option.splits)
  from assms(1) g have "\<bar>vx g\<bar> \<le> 35 \<and> \<bar>vy g\<bar> \<le> 20"
    by (intro catalogue_goal_bounds) (simp add: goalOfCatalogue_def)
  moreover from near distanceTo_components [of p g]
  have "\<bar>vx p - vx g\<bar> < 3" "\<bar>vy p - vy g\<bar> < 3"
    by simp_all
  ultimately show ?thesis by auto
qed

lemma animate_idle: "gameState s \<noteq> Flying \<Longrightarrow> animate s = (s, [])"
  by (simp add: animate_def)

lemma animate_collision:
  assumes "gameState s = Flying" and "spacecraft s = Some p"
    and "\<exists>body \<in> set (planets s). distanceTo p (position body) < radius body + 0.5"
  shows "animate s = (s\<lparr>gameState := Failed\<rparr>, [Failed])"
proof -
  from assms(3) have "gravityLoop integratorThreshold p vzero (planets s) = None"
    by (intro gravityLoop_None) (simp add: integratorThreshold_def distanceTo_spec)
  with assms(1,2) show ?thesis
    by (simp add: animate_def setGameState_def)
qed

lemma animate_free:
  assumes "gameState s = Flying" and "spacecraft s = Some p"
    and "\<not> (\<exists>body \<in> set (planets s). distanceTo p (position body) < radius body + 0.5)"
  shows "animate s =
     (let v' = vadd (spacecraftVelocity s)
                 (multiplyScalar (spec_acceleration p (planets s)) 0.016);
          p' = vadd p (multiplyScalar v' 0.016)
      in boundsCheck p' (goalCheck p'
           (s\<lparr>spacecraftVelocity := v', spacecraft := Some p',
               trailPositions := updateTrail p' (trailPositions s)\<rparr>, [])))"
proof -
  from assms(3)
  have "gravityLoop integratorThreshold p vzero (planets s) = Some (spec_acceleration p (planets s))"
    by (intro gravityLoop_Some) (simp add: integratorThreshold_def distanceTo_spec)
  with assms(1,2) show ?thesis
    by (simp add: animate_def Let_def)
qed

lemma checks_craft:
  "spacecraft (fst (boundsCheck p (goalCheck p (s1, [])))) = spacecraft s1"
  by (simp add: boundsCheck_def goalCheck_def setGameState_def Let_def)

lemma checks_log:
  assumes "goalOfCatalogue s1" and "gameState s1 = Flying"
  shows "boundsCheck p (goalCheck p (s1, [])) =
     (if goalWithin (goal s1) p (GOAL_RADIUS * 1.2)
      then (s1\<lparr>gameState := Success,
                completedLevels := insert (currentLevel s1) (completedLevels s1)\<rparr>, [Success])
      else if \<bar>vx p\<bar> > 55 \<or> \<bar>vy p\<bar> > 45 then (s1\<lparr>gameState := Failed\<rparr>, [Failed])
      else (s1, []))"
proof (cases "goalWithin (goal s1) p (GOAL_RADIUS * 1.2)")
  case True
  with goal_excludes_bounds [OF assms(1) True] show ?thesis
    by (simp add: boundsCheck_def goalCheck_def setGameState_def Let_def)
next
  case False
  then show ?thesis
    by (simp add: boundsCheck_def goalCheck_def setGameState_def)
qed

lemma frame_log:
  assumes "goalOfCatalogue s" and "gameState s = Flying" and "spacecraft s = Some p"
    and "spacecraft (tick s) = Some p'"
  shows "snd (animate s) =
     (if \<exists>body \<in> set (planets s). distanceTo p (position body) < radius body + 0.5
      then [Failed]
      else if goalWithin (goal s) p' (GOAL_RADIUS * 1.2) then [Success]
      else if \<bar>vx p'\<bar> > 55 \<or> \<bar>vy p'\<bar> > 45 then [Failed]
      else [])
   \<and> (\<not> (\<exists>body \<in> set (planets s). distanceTo p (position body) < radius body + 0.5)
        \<and> goalWithin (goal s) p' (GOAL_RADIUS * 1.2) \<longrightarrow>
        gameState (tick s) = Success
        \<and> completedLevels (tick s) = insert (currentLevel s) (completedLevels s))"
proof (cases "\<exists>body \<in> set (planets s). distanceTo p (position body) < radius body + 0.5")
  case True
  with animate_collision [OF assms(2,3)] show ?thesis by simp
next
  case False
  define v' where "v' = vadd (spacecraftVelocity s)
      (multiplyScalar (spec_acceleration p (planets s)) 0.016)"
  define q where "q = vadd p (multiplyScalar v' 0.016)"
  define s1 where "s1 = s\<lparr>spacecraftVelocity := v', spacecraft := Some q,
      trailPositions := updateTrail q (trailPositions s)\<rparr>"
  from animate_free [OF assms(2,3) False]
  have a: "animate s = boundsCheck q (goalCheck q (s1, []))"
    by (simp add: Let_def v'_def q_def s1_def)
  have s1: "spacecraft s1 = Some q"
    "goal s1 = goal s" "gameState s1 = Flying" "completedLevels s1 = completedLevels s"
    "currentLevel s1 = currentLevel s"
    by (simp_all add: s1_def assms(2))
  from a s1(1) assms(4) have q: "q = p'"
    by (simp add: tick_def checks_craft)
  from assms(1) s1(2) have cat: "goalOfCatalogue s1"
    by (simp add: goalOfCatalogue_def)
  from False a show ?thesis
    unfolding tick_def a checks_log [OF cat s1(3)] q [symmetric] s1(2)
    by (simp add: s1)
qed

lemma terminal_signalStable:
  "signalStable (\<lambda>t. gameState t = ph \<or> gameState t = Aiming)"
  unfolding signalStable_def by (simp add: initLevel_fields(9))

lemma terminal_phase_step:
  assumes "gameState s = Success \<or> gameState s = Failed" and "handle e s = Some t"
  shows "gameState t = gameState s \<or> gameState t = Aiming"
proof (rule handle_stable [where P = "\<lambda>t. gameState t = gameState s \<or> gameState t = Aiming"
      and s = s and e = e])
  show "signalStable (\<lambda>t. gameState t = gameState s \<or> gameState t = Aiming)"
    by (rule terminal_signalStable)
qed (use assms in \<open>auto simp: onMouseDown_def onMouseMove_def onMouseUp_def tick_def animate_def\<close>)

lemma animate_phase:
  "gameState (fst (animate s)) = (if snd (animate s) = [] then gameState s else last (snd (animate s)))"
  by (simp add: animate_def setGameState_def goalCheck_def boundsCheck_def Let_def
      split: option.splits)

lemma frame_log_length:
  assumes "goalOfCatalogue s"
  shows "length (snd (animate s)) \<le> 1"
proof (cases "gameState s = Flying")
  case False
  then show ?thesis by (simp add: animate_idle)
next
  case True
  show ?thesis
  proof (cases "spacecraft s")
    case None
    with True show ?thesis by (simp add: animate_def)
  next
    case (Some p)
    with animate_fields(5) [of s] obtain p' where "spacecraft (tick s) = Some p'"
      by (auto simp: tick_def)
    from frame_log [OF assms True Some this] show ?thesis
      by simp
  qed
qed

lemma terminal_flight: "gameState s \<noteq> Flying \<Longrightarrow> flight n s = s"
  by (induction n) (simp_all add: tick_def animate_idle)

lemma straight_craft:
  "spacecraft (tick (straightShot\<lparr>spacecraft := Some (Vec x 0), trailPositions := t\<rparr>))
     = Some (Vec (x + 0.24) 0)"
  by (simp add: straightShot_eq initialState_def tick_def animate_def goalCheck_def
      boundsCheck_def setGameState_def vadd_def multiplyScalar_def vzero_def Let_def)

lemma straight_fields:
  "gameState (straightShot\<lparr>spacecraft := c, trailPositions := t\<rparr>) = Flying"
  "planets (straightShot\<lparr>spacecraft := c, trailPositions := t\<rparr>) = []"
  "goal (straightShot\<lparr>spacecraft := c, trailPositions := t\<rparr>) = Some (Vec 20 0)"
  "currentLevel (straightShot\<lparr>spacecraft := c, trailPositions := t\<rparr>) = 0"
  "completedLevels (straightShot\<lparr>spacecraft := c, trailPositions := t\<rparr>) = {}"
  by (simp_all add: straightShot_eq initialState_def)

subsection \<open>After the end of a run\<close>

lemma initLevel_freshRun: "initLevel i s = Some t \<Longrightarrow> freshRun t"
proof -
  assume a: "initLevel i s = Some t"
  then have "i < length LEVELS" by (rule initLevel_fields(6))
  then have "LEVELS ! i \<in> set LEVELS" by simp
  with initLevel_fields(5,7,9,10,11) [OF a] a show ?thesis
    unfolding freshRun_def
    by (auto simp: initLevel_def Let_def split: if_splits intro!: bexI [of _ "LEVELS ! i"])
qed

lemma overOrFresh_signal:
  assumes "overOrFresh s0 s" and "sameRun s s'" and "gameState s' = gameState s"
    and "isDragging s' = isDragging s"
    and "gameState s' = Aiming \<longrightarrow> showMenu s' \<or> showLevelSelect s' \<or> freshRun s"
  shows "overOrFresh s0 s'"
  using assms unfolding overOrFresh_def runOver_def sameRun_def freshRun_def
  by auto

lemma levelEffect_overOrFresh:
  assumes "overOrFresh s0 s" and "sameRun s s'" and "gameState s' = gameState s"
    and "isDragging s' = isDragging s" and "levelEffect s' = Some t"
  shows "overOrFresh s0 t"
proof (cases "\<not> showMenu s' \<and> \<not> showLevelSelect s'")
  case True
  with assms(5) have "initLevel (currentLevel s') s' = Some t"
    by (simp add: levelEffect_def)
  then have "freshRun t" by (rule initLevel_freshRun)
  then show ?thesis by (simp add: overOrFresh_def)
next
  case False
  with assms(5) have "t = s'" by (auto simp: levelEffect_def)
  moreover from False have "gameState s' = Aiming \<longrightarrow> showMenu s' \<or> showLevelSelect s' \<or> freshRun s"
    by auto
  ultimately show ?thesis
    using overOrFresh_signal [OF assms(1-4)] by simp
qed

lemma setCurrentLevel_overOrFresh:
  assumes "overOrFresh s0 s" and "setCurrentLevel v s = Some t"
  shows "overOrFresh s0 t"
proof (cases "currentLevel s = v")
  case True
  with assms show ?thesis by (simp add: setCurrentLevel_def)
next
  case False
  with assms(2) have le: "levelEffect (s\<lparr>currentLevel := v\<rparr>) = Some t"
    by (simp add: setCurrentLevel_def)
  show ?thesis
    by (rule levelEffect_overOrFresh [OF assms(1) _ _ _ le]) (simp_all add: sameRun_def)
qed

lemma setRetryCounter_overOrFresh:
  assumes "overOrFresh s0 s" and "setRetryCounter v s = Some t"
  shows "overOrFresh s0 t"
proof (cases "retryCounter s = v")
  case True
  with assms show ?thesis by (simp add: setRetryCounter_def)
next
  case False
  with assms(2) have le: "levelEffect (s\<lparr>retryCounter := v\<rparr>) = Some t"
    by (simp add: setRetryCounter_def)
  show ?thesis
    by (rule levelEffect_overOrFresh [OF assms(1) _ _ _ le]) (simp_all add: sameRun_def)
qed

lemma setShowMenu_overOrFresh:
  assumes "overOrFresh s0 s" and "setShowMenu v s = Some t"
  shows "overOrFresh s0 t"
proof (cases "showMenu s = v")
  case True
  with assms show ?thesis by (simp add: setShowMenu_def)
next
  case False
  with assms(2) have le: "levelEffect (s\<lparr>showMenu := v\<rparr>) = Some t"
    by (simp add: setShowMenu_def)
  show ?thesis
    by (rule levelEffect_overOrFresh [OF assms(1) _ _ _ le]) (simp_all add: sameRun_def)
qed

lemma setShowLevelSelect_overOrFresh:
  assumes "overOrFresh s0 s" and "setShowLevelSelect v s = Some t"
  shows "overOrFresh s0 t"
proof (cases "showLevelSelect s = v")
  case True
  with assms show ?thesis by (simp add: setShowLevelSelect_def)
next
  case False
  with assms(2) have le: "levelEffect (s\<lparr>showLevelSelect := v\<rparr>) = Some t"
    by (simp add: setShowLevelSelect_def)
  show ?thesis
    by (rule levelEffect_overOrFresh [OF assms(1) _ _ _ le]) (simp_all add: sameRun_def)
qed

lemma startGame_overOrFresh:
  assumes "overOrFresh s0 s" and "startGame s = Some t"
  shows "overOrFresh s0 t"
proof (cases "setShowMenu False s")
  case None
  with assms(2) show ?thesis by (simp add: startGame_def)
next
  case (Some s1)
  have p1: "overOrFresh s0 s1" by (rule setShowMenu_overOrFresh [OF assms(1) Some])
  show ?thesis
  proof (cases "setCurrentLevel 0 s1")
    case None
    with Some assms(2) show ?thesis by (simp add: startGame_def)
  next
    case (Some s2)
    have "overOrFresh s0 s2" by (rule setCurrentLevel_overOrFresh [OF p1 Some])
    then have "overOrFresh s0 (s2\<lparr>attempts := 0\<rparr>)"
      by (simp add: overOrFresh_def runOver_def sameRun_def freshRun_def)
    moreover from \<open>setShowMenu False s = Some s1\<close> Some assms(2)
    have "t = s2\<lparr>attempts := 0\<rparr>" by (simp add: startGame_def)
    ultimately show ?thesis by simp
  qed
qed

lemma selectLevel_overOrFresh:
  assumes "overOrFresh s0 s" and "selectLevel i s = Some t"
  shows "overOrFresh s0 t"
proof (cases "setShowLevelSelect False s")
  case None
  with assms(2) show ?thesis by (simp add: selectLevel_def)
next
  case (Some s1)
  have p1: "overOrFresh s0 s1" by (rule setShowLevelSelect_overOrFresh [OF assms(1) Some])
  show ?thesis
  proof (cases "setCurrentLevel i s1")
    case None
    with Some assms(2) show ?thesis by (simp add: selectLevel_def)
  next
    case (Some s2)
    have "overOrFresh s0 s2" by (rule setCurrentLevel_overOrFresh [OF p1 Some])
    then have "overOrFresh s0 (s2\<lparr>attempts := 0\<rparr>)"
      by (simp add: overOrFresh_def runOver_def sameRun_def freshRun_def)
    moreover from \<open>setShowLevelSelect False s = Some s1\<close> Some assms(2)
    have "t = s2\<lparr>attempts := 0\<rparr>" by (simp add: selectLevel_def)
    ultimately show ?thesis by simp
  qed
qed

lemma openLevelSelect_overOrFresh:
  assumes "overOrFresh s0 s" and "openLevelSelect s = Some t"
  shows "overOrFresh s0 t"
proof (cases "setShowLevelSelect True s")
  case None
  with assms(2) show ?thesis by (simp add: openLevelSelect_def)
next
  case (Some s1)
  have p1: "overOrFresh s0 s1" by (rule setShowLevelSelect_overOrFresh [OF assms(1) Some])
  from Some assms(2) have "setShowMenu False s1 = Some t" by (simp add: openLevelSelect_def)
  then show ?thesis by (rule setShowMenu_overOrFresh [OF p1])
qed

lemma backToMenu_overOrFresh:
  assumes "overOrFresh s0 s" and "backToMenu s = Some t"
  shows "overOrFresh s0 t"
proof (cases "setShowLevelSelect False s")
  case None
  with assms(2) show ?thesis by (simp add: backToMenu_def)
next
  case (Some s1)
  have p1: "overOrFresh s0 s1" by (rule setShowLevelSelect_overOrFresh [OF assms(1) Some])
  from Some assms(2) have "setShowMenu True s1 = Some t" by (simp add: backToMenu_def)
  then show ?thesis by (rule setShowMenu_overOrFresh [OF p1])
qed

lemma nextLevel_overOrFresh:
  assumes "overOrFresh s0 s" and "nextLevel s = Some t"
  shows "overOrFresh s0 t"
proof (cases "currentLevel s < length LEVELS - 1")
  case True
  with assms(2) have "setCurrentLevel (currentLevel s + 1) s = Some t"
    by (simp add: nextLevel_def)
  then show ?thesis by (rule setCurrentLevel_overOrFresh [OF assms(1)])
next
  case False
  with assms(2) have "setShowMenu True (s\<lparr>gameState := Aiming\<rparr>) = Some t"
    by (simp add: nextLevel_def)
  then have t: "t = s\<lparr>gameState := Aiming, showMenu := True\<rparr>"
    by (cases "showMenu s") (auto simp: setShowMenu_def levelEffect_def)
  from assms(1) show ?thesis
    unfolding t overOrFresh_def runOver_def sameRun_def freshRun_def by auto
qed

lemma retryLevel_overOrFresh:
  "overOrFresh s0 s \<Longrightarrow> retryLevel s = Some t \<Longrightarrow> overOrFresh s0 t"
  unfolding retryLevel_def by (rule setRetryCounter_overOrFresh)

lemma menuButton_overOrFresh:
  "overOrFresh s0 s \<Longrightarrow> menuButton s = Some t \<Longrightarrow> overOrFresh s0 t"
  unfolding menuButton_def by (rule setShowMenu_overOrFresh)

lemma runOver_idle:
  assumes "runOver s"
  shows "onMouseDown s = Some s" "onMouseMove w s = Some s" "onMouseUp s = Some s" "tick s = s"
  using assms
  by (auto simp: runOver_def onMouseDown_def onMouseMove_def onMouseUp_def tick_def animate_def)

lemma runOver_quiet_buttons:
  assumes "runOver s"
  shows "openLevelSelect s = Some t \<Longrightarrow> runOver t \<and> sameRun s t"
    and "menuButton s = Some t \<Longrightarrow> runOver t \<and> sameRun s t"
  using assms
  by (auto simp: openLevelSelect_def menuButton_def setShowMenu_def setShowLevelSelect_def
      levelEffect_def runOver_def sameRun_def split: if_splits)

lemma runOver_handle:
  assumes "runOver s" and "handle e s = Some t"
  shows "overOrFresh s t \<and> (\<not> entersLevel e \<longrightarrow> runOver t \<and> sameRun s t)"
proof -
  from assms(1) have start: "overOrFresh s s"
    by (simp add: overOrFresh_def sameRun_def)
  have same: "sameRun s s" by (simp add: sameRun_def)
  show ?thesis
  proof (cases e)
    case MouseDown
    with assms runOver_idle(1) [OF assms(1)] start same show ?thesis by simp
  next
    case (MouseMove w)
    with assms runOver_idle(2) [OF assms(1), of w] start same show ?thesis by simp
  next
    case MouseUp
    with assms runOver_idle(3) [OF assms(1)] start same show ?thesis by simp
  next
    case Frame
    with assms runOver_idle(4) [OF assms(1)] start same show ?thesis by auto
  next
    case StartGame
    with assms(2) startGame_overOrFresh [OF start, of t] show ?thesis by simp
  next
    case NextLevel
    with assms(2) nextLevel_overOrFresh [OF start, of t] show ?thesis by simp
  next
    case RetryLevel
    with assms(2) retryLevel_overOrFresh [OF start, of t] show ?thesis by simp
  next
    case OpenLevelSelect
    with assms(2) runOver_quiet_buttons(1) [OF assms(1), of t] show ?thesis
      by (simp add: overOrFresh_def)
  next
    case (SelectLevel i)
    with assms(2) selectLevel_overOrFresh [OF start, of i t] show ?thesis by simp
  next
    case BackToMenu
    with assms(2) backToMenu_overOrFresh [OF start, of t] show ?thesis by simp
  next
    case MenuButton
    with assms(2) runOver_quiet_buttons(2) [OF assms(1), of t] show ?thesis
      by (simp add: overOrFresh_def)
  qed
qed

lemma run_append: "run (es1 @ es2) s = (case run es1 s of None \<Rightarrow> None | Some u \<Rightarrow> run es2 u)"
  by (induction es1 arbitrary: s) (auto split: option.splits)

lemma runOver_run:
  assumes "runOver s" and "run es s = Some u"
  shows "(runOver u \<and> sameRun s u)
     \<or> (\<exists>es1 es2 v. es = es1 @ es2 \<and> es1 \<noteq> [] \<and> entersLevel (last es1)
           \<and> run es1 s = Some v \<and> freshRun v \<and> run es2 v = Some u)"
  using assms
proof (induction es arbitrary: s)
  case Nil
  then show ?case by (simp add: sameRun_def)
next
  case (Cons e es)
  from Cons.prems(2) obtain s1 where 1: "handle e s = Some s1" and 2: "run es s1 = Some u"
    by (auto split: option.splits)
  from runOver_handle [OF Cons.prems(1) 1]
  have k: "overOrFresh s s1" and quiet: "\<not> entersLevel e \<longrightarrow> runOver s1 \<and> sameRun s s1"
    by simp_all
  show ?case
  proof (cases "runOver s1 \<and> sameRun s s1")
    case True
    from Cons.IH [OF _ 2] True
    consider "runOver u \<and> sameRun s1 u"
      | es1 es2 v where "es = es1 @ es2" "es1 \<noteq> []" "entersLevel (last es1)"
          "run es1 s1 = Some v" "freshRun v" "run es2 v = Some u"
      by blast
    then show ?thesis
    proof cases
      case 1
      with True show ?thesis by (auto simp: sameRun_def)
    next
      case 2
      from 2(1,2,3,4) 1 have "e # es = (e # es1) @ es2" "e # es1 \<noteq> []"
        "entersLevel (last (e # es1))" "run (e # es1) s = Some v"
        by simp_all
      with 2(5,6) show ?thesis by blast
    qed
  next
    case False
    with k quiet have "freshRun s1" "entersLevel e"
      by (auto simp: overOrFresh_def)
    with 1 2 have "e # es = [e] @ es" "[e] \<noteq> []" "entersLevel (last [e])"
      "run [e] s = Some s1" "freshRun s1" "run es s1 = Some u"
      by simp_all
    then show ?thesis by blast
  qed
qed

lemma drag_aiming_signalStable: "signalStable (\<lambda>s. isDragging s \<longrightarrow> gameState s = Aiming)"
  unfolding signalStable_def by (simp add: initLevel_fields(2,9))

lemma reachable_drag_aiming: "reachable s \<Longrightarrow> isDragging s \<longrightarrow> gameState s = Aiming"
proof (induction rule: reachable.induct)
  case reachable_initial
  show ?case by (simp add: initialState_def)
next
  case (reachable_handle s e s')
  show ?case
  proof (rule handle_stable [where P = "\<lambda>s. isDragging s \<longrightarrow> gameState s = Aiming" and s = s and e = e])
    show "signalStable (\<lambda>s. isDragging s \<longrightarrow> gameState s = Aiming)"
      by (rule drag_aiming_signalStable)
  next
    assume "e = Frame"
    show "isDragging (tick s) \<longrightarrow> gameState (tick s) = Aiming"
    proof
      assume "isDragging (tick s)"
      then have "isDragging s" by (simp add: tick_def animate_fields(4))
      with reachable_handle.IH have "gameState s = Aiming" by simp
      then show "gameState (tick s) = Aiming" by (simp add: tick_def animate_def)
    qed
  qed (use reachable_handle in \<open>auto simp: onMouseDown_def onMouseMove_def onMouseUp_def Let_def
        split: if_splits option.splits\<close>)
qed

lemma terminal_runOver:
  "reachable s \<Longrightarrow> gameState s = Success \<or> gameState s = Failed \<Longrightarrow> runOver s"
  using reachable_drag_aiming [of s] by (auto simp: runOver_def)

text \<open>
  Claim C4. In every reachable state a frame calls \<open>setGameState\<close> at most once.
  In a flight the call is decided in the order collision, goal, bounds: \<open>Failed\<close> when
  a planet is nearer than \<open>radius + 0.5\<close> to the position before the frame, else
  \<open>Success\<close> when the goal is within \<open>GOAL_RADIUS * 1.2\<close> of the new position, else
  \<open>Failed\<close> when the new position is out of bounds, else none; the phase after the frame
  is the one set, if any. Outside \<open>Flying\<close> the frame changes nothing, and from
  \<open>Success\<close> or \<open>Failed\<close> a single event leaves the phase as it is or makes it
  \<open>Aiming\<close>. Once the phase is \<open>Success\<close> or \<open>Failed\<close> the run is over, and a run
  that is over stays over with its craft, velocity and trail untouched, whatever the
  mouse and the frames do, until one of the buttons that enter a level (start, next
  level, retry, level selection, back from the level grid) has run \<open>initLevel\<close> and left
  a fresh Run: over every sequence of events the state is still over and the Run the
  same, or the sequence passes through a fresh Run right after such a button.
\<close>

theorem frame_checks_in_priority_order:
  assumes "reachable s"
  shows "length (snd (animate s)) \<le> 1
     \<and> (gameState s \<noteq> Flying \<longrightarrow> animate s = (s, []))
     \<and> (gameState s = Flying \<and> spacecraft s = Some p \<and> spacecraft (tick s) = Some p' \<longrightarrow>
          snd (animate s) =
            (if \<exists>body \<in> set (planets s). distanceTo p (position body) < radius body + 0.5
             then [Failed]
             else if goalWithin (goal s) p' (GOAL_RADIUS * 1.2) then [Success]
             else if \<bar>vx p'\<bar> > 55 \<or> \<bar>vy p'\<bar> > 45 then [Failed]
             else []))
     \<and> gameState (tick s) =
          (if snd (animate s) = [] then gameState s else last (snd (animate s)))
     \<and> ((gameState s = Success \<or> gameState s = Failed) \<and> handle e s = Some t \<longrightarrow>
          gameState t = gameState s \<or> gameState t = Aiming)
     \<and> (gameState s = Success \<or> gameState s = Failed \<longrightarrow> runOver s)
     \<and> (runOver s \<and> handle e s = Some t \<longrightarrow>
          ((runOver t \<and> sameRun s t) \<or> freshRun t)
          \<and> (\<not> entersLevel e \<longrightarrow> runOver t \<and> sameRun s t))
     \<and> (runOver s \<and> run es s = Some u \<longrightarrow>
          (runOver u \<and> sameRun s u)
          \<or> (\<exists>es1 es2 v. es = es1 @ es2 \<and> es1 \<noteq> [] \<and> entersLevel (last es1)
                \<and> run es1 s = Some v \<and> freshRun v \<and> run es2 v = Some u))
     \<and> (initLevel i s = Some w \<longrightarrow> freshRun w)"
proof -
  from assms have cat: "goalOfCatalogue s"
    by (rule reachable_goalOfCatalogue)
  have "snd (animate s) =
            (if \<exists>body \<in> set (planets s). distanceTo p (position body) < radius body + 0.5
             then [Failed]
             else if goalWithin (goal s) p' (GOAL_RADIUS * 1.2) then [Success]
             else if \<bar>vx p'\<bar> > 55 \<or> \<bar>vy p'\<bar> > 45 then [Failed]
             else [])"
    if "gameState s = Flying" "spacecraft s = Some p" "spacecraft (tick s) = Some p'"
    using frame_log [OF cat that] by (simp only:)
  moreover have "gameState t = gameState s \<or> gameState t = Aiming"
    if "gameState s = Success \<or> gameState s = Failed" "handle e s = Some t"
    using that by (rule terminal_phase_step)
  moreover have "runOver s" if "gameState s = Success \<or> gameState s = Failed"
    using assms that by (rule terminal_runOver)
  moreover have "((runOver t \<and> sameRun s t) \<or> freshRun t)
          \<and> (\<not> entersLevel e \<longrightarrow> runOver t \<and> sameRun s t)"
    if "runOver s" "handle e s = Some t"
    using runOver_handle [OF that] by (simp add: overOrFresh_def)
  moreover have "(runOver u \<and> sameRun s u)
          \<or> (\<exists>es1 es2 v. es = es1 @ es2 \<and> es1 \<noteq> [] \<and> entersLevel (last es1)
                \<and> run es1 s = Some v \<and> freshRun v \<and> run es2 v = Some u)"
    if "runOver s" "run es s = Some u"
    using that by (rule runOver_run)
  moreover have "freshRun w" if "initLevel i s = Some w"
    using that by (rule initLevel_freshRun)
  ultimately show ?thesis
    using frame_log_length [OF cat] animate_idle [of s] animate_phase [of s]
    by (simp add: tick_def)
qed

theorem frame_checks_in_priority_order_witness:
  "snd (animate (flight 154 straightShot)) = [Success]
   \<and> gameState (flight 154 straightShot) = Flying
   \<and> gameState (tick (flight 154 straightShot)) = Success
   \<and> animate (tick (flight 154 straightShot)) = (tick (flight 154 straightShot), [])
   \<and> runOver (tick (flight 154 straightShot))
   \<and> run [MouseDown, MouseMove (Vec (-50) 0), MouseUp, Frame, Frame]
        (tick (flight 154 straightShot)) = Some (tick (flight 154 straightShot))"
proof -
  from straight_flight [of 154] obtain t where t: "flight 154 straightShot
     = straightShot\<lparr>spacecraft := Some (Vec 16.96 0), trailPositions := t\<rparr>"
    by auto
  have r: "reachable (flight 154 straightShot)"
    by (rule flight_reachable [OF straightShot_reachable])
  have "reachable (flight (Suc 154) straightShot)"
    by (rule flight_reachable [OF straightShot_reachable])
  then have r': "reachable (tick (flight 154 straightShot))"
    by (simp only: flight.simps)
  from frame_checks_in_priority_order [OF r, of "Vec 16.96 0" "Vec 17.2 0"]
    frame_checks_in_priority_order [OF r']
  have first: "snd (animate (flight 154 straightShot)) = [Success]
   \<and> gameState (flight 154 straightShot) = Flying
   \<and> gameState (tick (flight 154 straightShot)) = Success
   \<and> animate (tick (flight 154 straightShot)) = (tick (flight 154 straightShot), [])"
    unfolding t
    by (simp add: straight_craft straight_fields goalWithin_def distanceTo_axis GOAL_RADIUS_def)
  with frame_checks_in_priority_order [OF r'] have over: "runOver (tick (flight 154 straightShot))"
    by simp
  from runOver_idle [OF over] have "run [MouseDown, MouseMove (Vec (-50) 0), MouseUp, Frame, Frame]
        (tick (flight 154 straightShot)) = Some (tick (flight 154 straightShot))"
    by simp
  with first over show ?thesis by simp
qed

text \<open>
  Claim C6. In a reachable state, a frame of a flight without collision whose new
  position is nearer than \<open>GOAL_RADIUS * 1.2 = 3\<close> to the goal sets the phase to
  \<open>Success\<close> (the only phase it sets) and inserts the current level into
  \<open>completedLevels\<close>; a level that was in the set leaves the set as it was, and every
  later frame leaves the state as it is, wherever the craft stands.
\<close>

theorem goal_capture:
  assumes "reachable s" and "gameState s = Flying" and "spacecraft s = Some p"
    and "\<not> (\<exists>body \<in> set (planets s). distanceTo p (position body) < radius body + 0.5)"
    and "spacecraft (tick s) = Some p'" and "goal s = Some g" and "distanceTo p' g < 3"
  shows "GOAL_RADIUS * 1.2 = 3
     \<and> gameState (tick s) = Success
     \<and> snd (animate s) = [Success]
     \<and> completedLevels (tick s) = insert (currentLevel s) (completedLevels s)
     \<and> (currentLevel s \<in> completedLevels s \<longrightarrow> completedLevels (tick s) = completedLevels s)
     \<and> (\<forall>n. flight n (tick s) = tick s)"
proof -
  from assms(1) have cat: "goalOfCatalogue s"
    by (rule reachable_goalOfCatalogue)
  have three: "GOAL_RADIUS * 1.2 = 3"
    by (simp add: GOAL_RADIUS_def)
  with assms(6,7) have near: "goalWithin (goal s) p' (GOAL_RADIUS * 1.2)"
    by (simp add: goalWithin_def)
  from frame_log [OF cat assms(2,3,5)] assms(4) near
  have log: "snd (animate s) = [Success]" and ph: "gameState (tick s) = Success"
    and ins: "completedLevels (tick s) = insert (currentLevel s) (completedLevels s)"
    by simp_all
  from ph have "flight n (tick s) = tick s" for n
    by (intro terminal_flight) simp
  with three log ph ins show ?thesis
    by (simp add: insert_absorb)
qed

theorem goal_capture_witness:
  "gameState (flight 154 straightShot) = Flying
   \<and> gameState (flight 155 straightShot) = Success
   \<and> completedLevels (flight 155 straightShot) = {0}
   \<and> completedLevels (flight 200 straightShot) = {0}"
proof -
  from straight_flight [of 154] obtain t where t: "flight 154 straightShot
     = straightShot\<lparr>spacecraft := Some (Vec 16.96 0), trailPositions := t\<rparr>"
    by auto
  have r: "reachable (flight 154 straightShot)"
    by (rule flight_reachable [OF straightShot_reachable])
  have nxt: "flight 155 straightShot = tick (flight 154 straightShot)"
    using flight.simps(2) [of 154 straightShot] by simp
  have "flight (n + m) s = flight n (flight m s)" for n m s
    by (induction n) simp_all
  from this [of 45 155 straightShot]
  have later: "flight 200 straightShot = flight 45 (tick (flight 154 straightShot))"
    by (simp add: nxt)
  have "gameState (flight 154 straightShot) = Flying"
    "spacecraft (flight 154 straightShot) = Some (Vec 16.96 0)"
    "\<not> (\<exists>body \<in> set (planets (flight 154 straightShot)).
        distanceTo (Vec 16.96 0) (position body) < radius body + 0.5)"
    "spacecraft (tick (flight 154 straightShot)) = Some (Vec 17.2 0)"
    "goal (flight 154 straightShot) = Some (Vec 20 0)"
    "distanceTo (Vec 17.2 0) (Vec 20 0) < 3"
    unfolding t by (simp_all add: straight_craft straight_fields distanceTo_axis)
  from goal_capture [OF r this] show ?thesis
    unfolding nxt later
    by (simp add: t straight_fields del: flight.simps)
qed

end
